theory Spec2Isabelle
  imports Complex_Main
begin

section \<open>time\_tracker: a shallow embedding of \<open>main.go\<close>\<close>

text \<open>
  The program is a command dispatcher over a handful of SQL statements. The embedding keeps
  the source's functions and names: \<open>set_tax\<close>, \<open>set_wage\<close>, \<open>add\<close>, \<open>total\<close>,
  \<open>total_money\<close>, \<open>initialize\<close>, \<open>cleanup\<close>, \<open>print_usage\<close> and \<open>main\<close>
  (the source's \<open>setup\<close> is \<open>setup_go\<close> here).
  The SQLite file behind \<open>db\<close> is an explicit \<open>store\<close> value passed through every function
  that executes a statement; a returned Go \<open>error\<close> is the \<open>Inl\<close> of a sum, a run-time
  panic is the constructor \<open>Panicked\<close>.

  Conventions for what the source takes from outside the repository:
  \<^item> \<open>float64\<close> and SQLite \<open>REAL\<close> values are the real numbers they denote; rounding,
    infinities and NaN are outside the model. \<open>strconv.ParseFloat\<close> is a parameter
    (\<open>ParseFloat\<close> of the environment record) rather than a definition.
  \<^item> a \<open>time.Time\<close> is the instant it denotes, in nanoseconds since the Unix epoch; the
    store orders the \<open>start\<close> column by instant.
  \<^item> calendar arithmetic (\<open>time.Date\<close>, \<open>AddDate\<close>) is over unbounded integers in the
    proleptic Gregorian calendar, as the \<open>time\<close> package documents it; the package's own
    limit on representable years is not modelled.
  \<^item> a statement fails only when a table it names does not exist; the SQL \<open>sum\<close> is the
    mathematical sum of the integers in the column.
\<close>

subsection \<open>Errors and outcomes\<close>

datatype error =
    ErrArgs                 \<comment> \<open>\<open>fmt.Errorf("Invalid amount/number of arguments")\<close>\<close>
  | ErrSyntax               \<comment> \<open>\<open>strconv.ErrSyntax\<close>\<close>
  | ErrRange                \<comment> \<open>\<open>strconv.ErrRange\<close>\<close>
  | ErrNumber error         \<comment> \<open>\<open>fmt.Errorf("Failed to parse argument as number: ...", err)\<close>\<close>
  | ErrUnit string          \<comment> \<open>\<open>fmt.Errorf("Duration with invalid unit: %s", darg)\<close>\<close>
  | ErrStorage              \<comment> \<open>an error returned by \<open>db.Exec\<close> or \<open>db.QueryRow(...).Scan\<close>\<close>
  | ErrMkdir                \<comment> \<open>an error returned by \<open>os.MkdirAll\<close>\<close>
  | ErrHome                 \<comment> \<open>an error returned by \<open>os.UserHomeDir\<close>\<close>

text \<open>A call either returns or panics (an index out of range aborts the process).\<close>

datatype 'a outcome = Returned 'a | Panicked

subsection \<open>\<open>strconv.ParseInt(s, 10, 64)\<close>\<close>

definition is_digit :: "char \<Rightarrow> bool" where
  "is_digit c = (48 \<le> (of_char c :: int) \<and> (of_char c :: int) \<le> 57)"

definition digit_val :: "char \<Rightarrow> int" where
  "digit_val c = (of_char c :: int) - 48"

definition maxUint64 :: int where
  "maxUint64 = 18446744073709551615"

text \<open>
  The digit loop of \<open>ParseUint\<close> for base 10 and 64 bits: a byte that is not a decimal
  digit is a syntax error; a product or sum that leaves \<open>uint64\<close> is a range error. The
  first failure met from the left decides.
\<close>

fun parse_uint_loop :: "int \<Rightarrow> string \<Rightarrow> error + int" where
  "parse_uint_loop n [] = Inr n"
| "parse_uint_loop n (c # cs) =
     (if \<not> is_digit c then Inl ErrSyntax
      else if n \<ge> maxUint64 div 10 + 1 then Inl ErrRange
      else if n * 10 + digit_val c > maxUint64 then Inl ErrRange
      else parse_uint_loop (n * 10 + digit_val c) cs)"

definition ParseUint :: "string \<Rightarrow> error + int" where
  "ParseUint s = (if s = [] then Inl ErrSyntax else parse_uint_loop 0 s)"

definition ParseInt :: "string \<Rightarrow> error + int" where
  "ParseInt s =
     (if s = [] then Inl ErrSyntax
      else
        let neg = (hd s = CHR ''-'');
            s1 = (if hd s = CHR ''+'' \<or> hd s = CHR ''-'' then tl s else s)
        in case ParseUint s1 of
             Inl e \<Rightarrow> Inl e
           | Inr un \<Rightarrow>
               if \<not> neg \<and> un \<ge> 2 ^ 63 then Inl ErrRange
               else if neg \<and> un > 2 ^ 63 then Inl ErrRange
               else Inr (if neg then - un else un))"

subsection \<open>\<open>time.Date\<close> and \<open>Time.AddDate\<close>\<close>

type_synonym Time = int       \<comment> \<open>nanoseconds since 1970-01-01T00:00:00Z\<close>
type_synonym Duration = int   \<comment> \<open>nanoseconds\<close>

definition Second :: Duration where "Second = 1000000000"
definition Minute :: Duration where "Minute = 60 * Second"
definition Hour :: Duration where "Hour = 60 * Minute"

definition nsPerDay :: int where
  "nsPerDay = 86400 * 1000000000"

text \<open>
  \<open>norm(hi, lo, base)\<close> of package \<open>time\<close>: bring \<open>lo\<close> into \<open>0 .. base - 1\<close>, carrying
  into \<open>hi\<close>. Both divisions are of non-negative numbers, where Go's \<open>/\<close> is \<open>div\<close>.
\<close>

definition norm_go :: "int \<Rightarrow> int \<Rightarrow> int \<Rightarrow> int \<times> int" where
  "norm_go hi lo base =
     (let (hi1, lo1) =
            (if lo < 0
             then (let n = (- lo - 1) div base + 1 in (hi - n, lo + n * base))
             else (hi, lo))
      in if lo1 \<ge> base
         then (let n = lo1 div base in (hi1 + n, lo1 - n * base))
         else (hi1, lo1))"

definition isLeap :: "int \<Rightarrow> bool" where
  "isLeap year = (year mod 4 = 0 \<and> (year mod 100 \<noteq> 0 \<or> year mod 400 = 0))"

text \<open>\<open>daysBefore[m]\<close>: days of a non-leap year before month \<open>m + 1\<close>, for \<open>m = 0 .. 12\<close>.\<close>

definition daysBefore :: "int \<Rightarrow> int" where
  "daysBefore m =
     (if m \<le> 0 then 0 else if m = 1 then 31 else if m = 2 then 59 else if m = 3 then 90
      else if m = 4 then 120 else if m = 5 then 151 else if m = 6 then 181
      else if m = 7 then 212 else if m = 8 then 243 else if m = 9 then 273
      else if m = 10 then 304 else if m = 11 then 334 else 365)"

text \<open>Days from 0001-01-01 to January 1 of \<open>year\<close>, and the same counted from 1970-01-01.\<close>

definition daysBeforeYear :: "int \<Rightarrow> int" where
  "daysBeforeYear year =
     365 * (year - 1) + (year - 1) div 4 - (year - 1) div 100 + (year - 1) div 400"

definition daysSinceEpoch :: "int \<Rightarrow> int" where
  "daysSinceEpoch year = daysBeforeYear year - 719162"

text \<open>
  \<open>time.Date(year, month, day, hour, min, sec, nsec, time.UTC)\<close>: every field may be out
  of its usual range and is normalised, month into year first, then the clock fields into
  the day; the day itself is only added to the day count.
\<close>

definition Date :: "int \<Rightarrow> int \<Rightarrow> int \<Rightarrow> int \<Rightarrow> int \<Rightarrow> int \<Rightarrow> int \<Rightarrow> Time" where
  "Date year month day hour minute sec nsec =
     (let (year1, m) = norm_go year (month - 1) 12;
          month1 = m + 1;
          (sec1, nsec1) = norm_go sec nsec 1000000000;
          (min1, sec2) = norm_go minute sec1 60;
          (hour1, min2) = norm_go hour min1 60;
          (day1, hour2) = norm_go day hour1 24;
          d = daysSinceEpoch year1 + daysBefore (month1 - 1)
              + (if isLeap year1 \<and> month1 \<ge> 3 then 1 else 0)
              + (day1 - 1);
          unix = d * 86400 + (hour2 * 3600 + min2 * 60 + sec2)
      in unix * 1000000000 + nsec1)"

text \<open>
  \<open>t.Date()\<close>: the civil date of an instant, in the two steps of \<open>absDate\<close>. First the
  year and the day within the year, by cutting 400-, 100-, 4- and 1-year cycles off the day
  count since 0001-01-01; the last 100-year cycle of a 400-year cycle and the last year of
  a 4-year cycle are one day longer, hence the caps at 3.
\<close>

definition absYear :: "int \<Rightarrow> int \<times> int" where
  "absYear days =
     (let d0 = days + 719162;
          n400 = d0 div 146097;
          d1 = d0 - 146097 * n400;
          n100 = min 3 (d1 div 36524);
          d2 = d1 - 36524 * n100;
          n4 = d2 div 1461;
          d3 = d2 - 1461 * n4;
          n1 = min 3 (d3 div 365);
          yday = d3 - 365 * n1
      in (400 * n400 + 100 * n100 + 4 * n4 + n1 + 1, yday))"

text \<open>
  Then month and day from the day within the year: the leap day is taken out, the month is
  estimated as if every month had 31 days and moved up by one where the estimate is short.
\<close>

definition monthDay :: "int \<Rightarrow> int \<times> int" where
  "monthDay day =
     (let m = day div 31;
          month = (if day \<ge> daysBefore (m + 1) then m + 1 else m);
          begin_day = daysBefore month
      in (month + 1, day - begin_day + 1))"

definition ydayDate :: "int \<Rightarrow> int \<Rightarrow> int \<times> int \<times> int" where
  "ydayDate year yday =
     (if isLeap year \<and> yday = 31 + 29 - 1 then (year, 2, 29)
      else
        let day = (if isLeap year \<and> yday > 31 + 29 - 1 then yday - 1 else yday);
            (month, d) = monthDay day
        in (year, month, d))"

definition absDate :: "int \<Rightarrow> int \<times> int \<times> int" where
  "absDate days = (let (year, yday) = absYear days in ydayDate year yday)"

definition TimeDate :: "Time \<Rightarrow> int \<times> int \<times> int" where
  "TimeDate t = absDate (t div nsPerDay)"

text \<open>\<open>t.Clock()\<close> and \<open>t.Nanosecond()\<close>: the time of day of an instant.\<close>

definition TimeClock :: "Time \<Rightarrow> int \<times> int \<times> int" where
  "TimeClock t =
     (let secs = (t div 1000000000) mod 86400
      in (secs div 3600, (secs mod 3600) div 60, secs mod 60))"

definition Nanosecond :: "Time \<Rightarrow> int" where
  "Nanosecond t = t mod 1000000000"

text \<open>
  \<open>t.AddDate(years, months, days)\<close> is \<open>Date(year + years, month + months, day + days,
  hour, min, sec, nsec)\<close> on the civil date and clock of \<open>t\<close>, normalised as \<open>Date\<close> does.
\<close>

definition AddDate :: "Time \<Rightarrow> int \<Rightarrow> int \<Rightarrow> int \<Rightarrow> Time" where
  "AddDate t years months days =
     (let (year, month, day) = TimeDate t;
          (hour, minute, sec) = TimeClock t
      in Date (year + years) (month + months) (day + days) hour minute sec (Nanosecond t))"

subsection \<open>The store\<close>

text \<open>
  One row of \<open>time_entries\<close>. The three tables are created by \<open>initialize\<close>; a table that
  does not exist yet is \<open>None\<close>, and a statement that names it fails. The rate tables are
  lists of rows: \<open>initialize\<close> inserts one row into each, and the statements of the program
  are modelled for any number of rows.
\<close>

record entry =
  entry_id :: int
  start :: Time
  duration :: Duration
  description :: string

record store =
  time_entries :: "entry list option"
  tax :: "real list option"
  wage :: "real list option"

text \<open>What the process reads from its surroundings.\<close>

record env =
  ParseFloat :: "string \<Rightarrow> error + real"    \<comment> \<open>\<open>strconv.ParseFloat(s, 64)\<close>\<close>
  Now :: Time                                 \<comment> \<open>\<open>time.Now()\<close>\<close>
  UserHomeDir :: "string option"              \<comment> \<open>\<open>os.UserHomeDir()\<close>, \<open>None\<close> when it fails\<close>
  MkdirAll :: "string \<Rightarrow> error option"       \<comment> \<open>\<open>os.MkdirAll(dir, os.ModePerm)\<close>\<close>

text \<open>SQL's \<open>sum\<close> of no rows is \<open>NULL\<close>; \<open>coalesce\<close> replaces \<open>NULL\<close>.\<close>

definition sql_sum :: "int list \<Rightarrow> int option" where
  "sql_sum xs = (if xs = [] then None else Some (sum_list xs))"

definition coalesce :: "'a option \<Rightarrow> 'a \<Rightarrow> 'a" where
  "coalesce v d = (case v of None \<Rightarrow> d | Some x \<Rightarrow> x)"

text \<open>\<open>select rate from t limit 1\<close> as a scalar subquery: the first row, \<open>NULL\<close> if none.\<close>

definition select_rate_limit_1 :: "real list \<Rightarrow> real option" where
  "select_rate_limit_1 rows = (case rows of [] \<Rightarrow> None | r # _ \<Rightarrow> Some r)"

text \<open>\<open>where start > ? and start < ?\<close>\<close>

definition in_window :: "Time \<Rightarrow> Time \<Rightarrow> entry \<Rightarrow> bool" where
  "in_window lo hi e = (start e > lo \<and> start e < hi)"

text \<open>\<open>id integer primary key autoincrement\<close>: one more than the largest id in use.\<close>

definition next_id :: "entry list \<Rightarrow> int" where
  "next_id rows = fold max (map entry_id rows) 0 + 1"

subsection \<open>\<open>initialize\<close>\<close>

text \<open>
  The schema script is run statement by statement; the first failing statement ends it and
  what ran before stays.
\<close>

definition exec_schema :: "store \<Rightarrow> error option \<times> store" where
  "exec_schema db =
     (if time_entries db \<noteq> None then (Some ErrStorage, db)
      else let db1 = db\<lparr>time_entries := Some []\<rparr> in
        if tax db1 \<noteq> None then (Some ErrStorage, db1)
        else let db2 = db1\<lparr>tax := Some [0]\<rparr> in
          if wage db2 \<noteq> None then (Some ErrStorage, db2)
          else (None, db2\<lparr>wage := Some [0]\<rparr>))"

definition initialize :: "env \<Rightarrow> string \<Rightarrow> store \<Rightarrow> error option \<times> store" where
  "initialize ev db_dir db =
     (case MkdirAll ev db_dir of
        Some err \<Rightarrow> (Some err, db)
      | None \<Rightarrow> exec_schema db)"

subsection \<open>\<open>set_tax\<close> and \<open>set_wage\<close>\<close>

definition set_tax :: "env \<Rightarrow> string list \<Rightarrow> store \<Rightarrow> (error + real) \<times> store" where
  "set_tax ev args db =
     (if length args \<noteq> 1 then (Inl ErrArgs, db)
      else case ParseFloat ev (args ! 0) of
             Inl err \<Rightarrow> (Inl (ErrNumber err), db)
           | Inr rate \<Rightarrow>
               (case tax db of
                  None \<Rightarrow> (Inl ErrStorage, db)
                | Some rows \<Rightarrow> (Inr rate, db\<lparr>tax := Some (map (\<lambda>_. rate) rows)\<rparr>)))"

definition set_wage :: "env \<Rightarrow> string list \<Rightarrow> store \<Rightarrow> (error + real) \<times> store" where
  "set_wage ev args db =
     (if length args \<noteq> 1 then (Inl ErrArgs, db)
      else case ParseFloat ev (args ! 0) of
             Inl err \<Rightarrow> (Inl (ErrNumber err), db)
           | Inr rate \<Rightarrow>
               (case wage db of
                  None \<Rightarrow> (Inl ErrStorage, db)
                | Some rows \<Rightarrow> (Inr rate, db\<lparr>wage := Some (map (\<lambda>_. rate) rows)\<rparr>)))"

subsection \<open>\<open>add\<close>\<close>

text \<open>
  \<open>time.Duration(x)\<close> of a \<open>float64\<close>: the fraction is discarded (truncation towards
  zero). Go leaves the result open when the value is outside \<open>int64\<close>; the model truncates
  there as well.
\<close>

definition Duration_of_float64 :: "real \<Rightarrow> Duration" where
  "Duration_of_float64 x = (if x < 0 then \<lceil>x\<rceil> else \<lfloor>x\<rfloor>)"

fun Join :: "string list \<Rightarrow> string \<Rightarrow> string" where
  "Join [] sep = []"
| "Join [a] sep = a"
| "Join (a # b # bs) sep = a @ sep @ Join (b # bs) sep"

text \<open>
  Lines 83 to 101 of \<open>add\<close>: the duration text is \<open>args[0]\<close>, its last byte selects the
  unit, the rest is parsed as a number. Indexing an empty \<open>args\<close>, or the byte before the
  start of an empty \<open>darg\<close>, panics.
\<close>

definition add_duration :: "env \<Rightarrow> string list \<Rightarrow> (error + Duration) outcome" where
  "add_duration ev args =
     (if args = [] then Panicked
      else let darg = args ! 0 in
        if darg = [] then Panicked
        else let c = darg ! (length darg - 1) in
          if c \<noteq> CHR ''h'' \<and> c \<noteq> CHR ''m'' \<and> c \<noteq> CHR ''s'' then Returned (Inl (ErrUnit darg))
          else let unit = (if c = CHR ''h'' then Hour else if c = CHR ''m'' then Minute else Second)
            in (case ParseFloat ev (take (length darg - 1) darg) of
                  Inl err \<Rightarrow> Returned (Inl err)
                | Inr n \<Rightarrow> Returned (Inr (Duration_of_float64 (real_of_int unit * n)))))"

definition add :: "env \<Rightarrow> string list \<Rightarrow> store \<Rightarrow> (error option \<times> store) outcome" where
  "add ev args db =
     (case add_duration ev args of
        Panicked \<Rightarrow> Panicked
      | Returned (Inl err) \<Rightarrow> Returned (Some err, db)
      | Returned (Inr dur) \<Rightarrow>
          let start_time = Now ev + (- dur);
              descr = Join (drop 1 args) '' ''
          in (case time_entries db of
                None \<Rightarrow> Returned (Some ErrStorage, db)
              | Some rows \<Rightarrow>
                  Returned (None, db\<lparr>time_entries := Some (rows @
                    [\<lparr>entry_id = next_id rows, start = start_time, duration = dur,
                      description = descr\<rparr>])\<rparr>)))"

subsection \<open>\<open>total\<close> and \<open>total_money\<close>\<close>

definition total :: "string list \<Rightarrow> store \<Rightarrow> error + Duration" where
  "total args db =
     (if length args \<noteq> 2 then Inl ErrArgs
      else case ParseInt (args ! 0) of
        Inl err \<Rightarrow> Inl err
      | Inr month_i \<Rightarrow>
          (case ParseInt (args ! 1) of
             Inl err \<Rightarrow> Inl err
           | Inr year_i \<Rightarrow>
               let start_t = Date year_i month_i 0 0 0 0 0;
                   end_t = AddDate start_t 0 1 0
               in (case time_entries db of
                     None \<Rightarrow> Inl ErrStorage
                   | Some rows \<Rightarrow>
                       Inr (coalesce (sql_sum (map duration
                              (filter (in_window start_t end_t) rows))) 0))))"

definition total_money :: "string list \<Rightarrow> store \<Rightarrow> error + real" where
  "total_money args db =
     (if length args \<noteq> 2 then Inl ErrArgs
      else case ParseInt (args ! 0) of
        Inl err \<Rightarrow> Inl err
      | Inr month_i \<Rightarrow>
          (case ParseInt (args ! 1) of
             Inl err \<Rightarrow> Inl err
           | Inr year_i \<Rightarrow>
               let start_t = Date year_i month_i 0 0 0 0 0;
                   end_t = AddDate start_t 0 1 0
               in (case (time_entries db, wage db, tax db) of
                     (Some rows, Some wage_rows, Some tax_rows) \<Rightarrow>
                       Inr ((real_of_int (coalesce (sql_sum (map duration
                                (filter (in_window start_t end_t) rows))) 0) / 3600000000000)
                            * coalesce (select_rate_limit_1 wage_rows) 0
                            * (1 - coalesce (select_rate_limit_1 tax_rows) 0))
                   | _ \<Rightarrow> Inl ErrStorage)))"

subsection \<open>\<open>main\<close>\<close>

text \<open>
  What the process writes, by the format string it uses. The \<open>set_wage\<close> branch of \<open>main\<close>
  prints with the format strings of the \<open>set_tax\<close> branch, and \<open>total_money\<close> fails with the
  text of \<open>total\<close>.
\<close>

datatype message =
    MsgSetupFailed error    \<comment> \<open>"Could not setup program: %s"\<close>
  | MsgUsage                \<comment> \<open>the text of \<open>print_usage\<close>\<close>
  | MsgAddFailed error      \<comment> \<open>"Could not add a new entry: %s"\<close>
  | MsgAddOk                \<comment> \<open>"Successfully added entry"\<close>
  | MsgTotalFailed error    \<comment> \<open>"Could not get total: %s"\<close>
  | MsgTotal Duration       \<comment> \<open>"Total: %s"\<close>
  | MsgMoney real           \<comment> \<open>"Total: %f Kc"\<close>
  | MsgInitFailed error     \<comment> \<open>"Could not initialize database: %s"\<close>
  | MsgInitOk               \<comment> \<open>"Successfully initialized database"\<close>
  | MsgSetTaxFailed error   \<comment> \<open>"Failed to set tax rate: %e"\<close>
  | MsgSetTaxOk real        \<comment> \<open>"Successfully set tax rate to: %f"\<close>

text \<open>
  The effects of a run in order: \<open>Open\<close> is the \<open>sql.Open\<close> of \<open>setup_go\<close>, \<open>Close\<close> the
  \<open>db.Close()\<close> of \<open>cleanup\<close>.
\<close>

datatype event = Open | Printf message | Close

text \<open>How the process ends: \<open>os.Exit(code)\<close>, \<open>main\<close> returning, or a panic.\<close>

datatype ending = Exited int | MainReturned | Crashed

definition exit_status :: "ending \<Rightarrow> int" where
  "exit_status e = (case e of Exited c \<Rightarrow> c mod 256 | MainReturned \<Rightarrow> 0 | Crashed \<Rightarrow> 2)"

record run =
  trace :: "event list"
  ending :: ending
  final :: store

definition print_usage :: "event list" where
  "print_usage = [Printf MsgUsage]"

definition cleanup :: "event list" where
  "cleanup = [Close]"

definition setup_go :: "env \<Rightarrow> error + string" where
  "setup_go ev =
     (case UserHomeDir ev of
        None \<Rightarrow> Inl ErrHome
      | Some home \<Rightarrow> Inr (home @ ''/'' @ ''.config/time_tracker/''))"

definition main :: "env \<Rightarrow> string list \<Rightarrow> store \<Rightarrow> run" where
  "main ev Args db =
     (case setup_go ev of
        Inl err \<Rightarrow> \<lparr>trace = [Printf (MsgSetupFailed err)], ending = Exited (- 1), final = db\<rparr>
      | Inr db_dir \<Rightarrow>
          if length Args < 2
          then \<lparr>trace = [Open] @ print_usage, ending = Exited (- 1), final = db\<rparr>
          else let cmd = Args ! 1; rest = drop 2 Args in
            if cmd = ''add'' then
              (case add ev rest db of
                 Panicked \<Rightarrow> \<lparr>trace = [Open], ending = Crashed, final = db\<rparr>
               | Returned (Some err, db') \<Rightarrow>
                   \<lparr>trace = [Open, Printf (MsgAddFailed err)] @ cleanup,
                    ending = MainReturned, final = db'\<rparr>
               | Returned (None, db') \<Rightarrow>
                   \<lparr>trace = [Open, Printf MsgAddOk] @ cleanup,
                    ending = MainReturned, final = db'\<rparr>)
            else if cmd = ''total'' then
              (case total rest db of
                 Inl err \<Rightarrow>
                   \<lparr>trace = [Open, Printf (MsgTotalFailed err)] @ cleanup,
                    ending = MainReturned, final = db\<rparr>
               | Inr t \<Rightarrow>
                   \<lparr>trace = [Open, Printf (MsgTotal t)] @ cleanup,
                    ending = MainReturned, final = db\<rparr>)
            else if cmd = ''total_money'' then
              (case total_money rest db of
                 Inl err \<Rightarrow>
                   \<lparr>trace = [Open, Printf (MsgTotalFailed err)] @ cleanup,
                    ending = MainReturned, final = db\<rparr>
               | Inr money \<Rightarrow>
                   \<lparr>trace = [Open, Printf (MsgMoney money)] @ cleanup,
                    ending = MainReturned, final = db\<rparr>)
            else if cmd = ''init'' then
              (case initialize ev db_dir db of
                 (Some err, db') \<Rightarrow>
                   \<lparr>trace = [Open, Printf (MsgInitFailed err)] @ cleanup,
                    ending = MainReturned, final = db'\<rparr>
               | (None, db') \<Rightarrow>
                   \<lparr>trace = [Open, Printf MsgInitOk] @ cleanup,
                    ending = MainReturned, final = db'\<rparr>)
            else if cmd = ''set_tax'' then
              (case set_tax ev rest db of
                 (Inl err, db') \<Rightarrow>
                   \<lparr>trace = [Open, Printf (MsgSetTaxFailed err)],
                    ending = MainReturned, final = db'\<rparr>
               | (Inr rate, db') \<Rightarrow>
                   \<lparr>trace = [Open, Printf (MsgSetTaxOk rate)],
                    ending = MainReturned, final = db'\<rparr>)
            else if cmd = ''set_wage'' then
              (case set_wage ev rest db of
                 (Inl err, db') \<Rightarrow>
                   \<lparr>trace = [Open, Printf (MsgSetTaxFailed err)],
                    ending = MainReturned, final = db'\<rparr>
               | (Inr rate, db') \<Rightarrow>
                   \<lparr>trace = [Open, Printf (MsgSetTaxOk rate)],
                    ending = MainReturned, final = db'\<rparr>)
            else \<lparr>trace = [Open] @ print_usage @ cleanup, ending = MainReturned, final = db\<rparr>)"

subsection \<open>Calendar helpers and example inputs\<close>

text \<open>\<open>daysIn(m, year)\<close> of package \<open>time\<close>: the number of days of month \<open>m\<close> (1 to 12).\<close>

definition daysIn :: "int \<Rightarrow> int \<Rightarrow> int" where
  "daysIn m year = (if m = 2 \<and> isLeap year then 29 else daysBefore m - daysBefore (m - 1))"

text \<open>
  An environment and a store to run the definitions on. \<open>example_ParseFloat\<close> lists the
  value of \<open>strconv.ParseFloat\<close> on the few literals the examples use, each of them exactly
  representable as a \<open>float64\<close>; the instant of \<open>Now\<close> is 2024-03-15T12:00:00Z.
\<close>

definition example_ParseFloat :: "string \<Rightarrow> error + real" where
  "example_ParseFloat s =
     (if s = ''1.5'' then Inr (3 / 2)
      else if s = ''-2'' then Inr (- 2)
      else if s = ''0.5'' then Inr (1 / 2)
      else if s = ''2'' then Inr 2
      else if s = ''100'' then Inr 100
      else Inl ErrSyntax)"

definition example_env :: env where
  "example_env =
     \<lparr>ParseFloat = example_ParseFloat, Now = 1710504000000000000,
      UserHomeDir = Some ''/home/user'', MkdirAll = (\<lambda>_. None)\<rparr>"

definition example_store :: store where
  "example_store =
     \<lparr>time_entries = Some
        [\<lparr>entry_id = 1, start = 1709164800000000000, duration = 3600000000000,
          description = ''on the lower boundary''\<rparr>,
         \<lparr>entry_id = 2, start = 1710496800000000000, duration = 7200000000000,
          description = ''inside''\<rparr>],
      tax = Some [1 / 2], wage = Some [100]\<rparr>"

definition empty_store :: store where
  "empty_store = \<lparr>time_entries = Some [], tax = Some [0], wage = Some [0]\<rparr>"

section \<open>Properties\<close>

subsection \<open>Evaluation lemmas\<close>

lemma example_env_simps:
  "ParseFloat example_env = example_ParseFloat"
  "Now example_env = 1710504000000000000"
  "UserHomeDir example_env = Some ''/home/user''"
  "MkdirAll example_env = (\<lambda>_. None)"
  by (simp_all add: example_env_def)

lemma example_store_simps:
  "tax example_store = Some [1 / 2]"
  "wage example_store = Some [100]"
  by (simp_all add: example_store_def)

lemma coalesce_sql_sum: "coalesce (sql_sum xs) 0 = sum_list xs"
  by (simp add: coalesce_def sql_sum_def)

lemma total_parsed:
  "ParseInt ms = Inr m \<Longrightarrow> ParseInt ys = Inr y \<Longrightarrow> time_entries db = Some rows \<Longrightarrow>
     total [ms, ys] db =
       Inr (sum_list (map duration
         (filter (in_window (Date y m 0 0 0 0 0) (AddDate (Date y m 0 0 0 0 0) 0 1 0)) rows)))"
  by (simp add: total_def coalesce_sql_sum Let_def)

lemma total_money_parsed:
  "ParseInt ms = Inr m \<Longrightarrow> ParseInt ys = Inr y \<Longrightarrow> time_entries db = Some rows \<Longrightarrow>
   wage db = Some wrows \<Longrightarrow> tax db = Some trows \<Longrightarrow>
     total_money [ms, ys] db =
       Inr (real_of_int (sum_list (map duration
              (filter (in_window (Date y m 0 0 0 0 0) (AddDate (Date y m 0 0 0 0 0) 0 1 0)) rows)))
            / 3600000000000
            * coalesce (select_rate_limit_1 wrows) 0
            * (1 - coalesce (select_rate_limit_1 trows) 0))"
  by (simp add: total_money_def coalesce_sql_sum Let_def)

lemma ParseInt_3: "ParseInt ''3'' = Inr 3"
  by (simp add: ParseInt_def ParseUint_def is_digit_def digit_val_def maxUint64_def)

lemma ParseInt_2024: "ParseInt ''2024'' = Inr 2024"
  by (simp add: ParseInt_def ParseUint_def is_digit_def digit_val_def maxUint64_def)



lemma add_duration_unit:
  "u \<in> {CHR ''h'', CHR ''m'', CHR ''s''} \<Longrightarrow>
     add_duration ev ((p @ [u]) # rest) =
       (case ParseFloat ev p of
          Inl err \<Rightarrow> Returned (Inl err)
        | Inr n \<Rightarrow> Returned (Inr (Duration_of_float64
            (real_of_int (if u = CHR ''h'' then Hour else if u = CHR ''m'' then Minute else Second) * n))))"
  by (auto simp: add_duration_def Let_def)


lemma window_start_March_2024: "Date 2024 3 0 0 0 0 0 = 1709164800000000000"
  by code_simp

lemma window_end_March_2024: "AddDate 1709164800000000000 0 1 0 = 1711670400000000000"
  by code_simp



subsection \<open>Argument checks of the rate setters\<close>

text \<open>
  Claim C5. For every argument sequence whose length is not exactly one, \<open>set_tax\<close> and
  \<open>set_wage\<close> each fail with the argument-count error and return the store as it was:
  nothing is written on that path.
\<close>

theorem C5_rate_setters_argument_count:
  "length args \<noteq> 1 \<Longrightarrow>
     set_tax ev args db = (Inl ErrArgs, db) \<and> set_wage ev args db = (Inl ErrArgs, db)"
  by (simp add: set_tax_def set_wage_def)

theorem C5_rate_setters_argument_count_witness:
  "length ([] :: string list) \<noteq> 1 \<and> length [''0.5'', ''2''] \<noteq> 1
   \<and> set_tax example_env [] example_store = (Inl ErrArgs, example_store)
   \<and> set_wage example_env [] example_store = (Inl ErrArgs, example_store)
   \<and> set_tax example_env [''0.5'', ''2''] example_store = (Inl ErrArgs, example_store)
   \<and> set_wage example_env [''0.5'', ''2''] example_store = (Inl ErrArgs, example_store)"
  using C5_rate_setters_argument_count [of "[]" example_env example_store]
        C5_rate_setters_argument_count [of "[''0.5'', ''2'']" example_env example_store]
  by simp

subsection \<open>\<open>add\<close> without a duration argument\<close>

text \<open>
  Claim C2 says that \<open>add\<close> with an empty argument sequence fails with a usage error that
  is reported, without crashing. The source reads \<open>args[0]\<close> before any length check (the
  four sibling commands test \<open>len(args)\<close> first), so the call panics: the process ends
  after \<open>sql.Open\<close> with nothing printed and no cleanup.
\<close>

theorem C2_add_without_arguments_panics:
  "add ev [] db = Panicked
   \<and> main example_env [''time_tracker'', ''add''] example_store
       = \<lparr>trace = [Open], ending = Crashed, final = example_store\<rparr>"
  by (simp add: add_def add_duration_def main_def setup_go_def example_env_simps)

subsection \<open>The duration text of \<open>add\<close>\<close>



subsection \<open>\<open>add\<close> records whatever number was parsed\<close>



subsection \<open>Calendar arithmetic\<close>

text \<open>
  \<open>norm\<close> is floor division; a year is 365 or 366 days long; \<open>absDate\<close> inverts the day
  count of \<open>Date\<close> on every valid civil date; and day 0 of a month is the last day of the
  month before it, so that \<open>AddDate(0, 1, 0)\<close> from there lands on the day of the given month
  with that number.
\<close>

lemma norm_go_eq: "0 < base \<Longrightarrow> norm_go hi lo base = (hi + lo div base, lo mod base)"
proof (cases "lo < 0")
  case neg: True
  assume b: "0 < base"
  define n where "n = (- lo - 1) div base + 1"
  define r where "r = (- lo - 1) mod base"
  have r: "0 \<le> r" "r < base" using b by (simp_all add: r_def)
  have eq: "- lo - 1 = base * (n - 1) + r"
    unfolding n_def r_def by simp
  have lo': "lo = base * (- n) + (base - 1 - r)"
    using eq by (simp add: algebra_simps)
  have d: "lo div base = - n"
    by (rule int_div_pos_eq[OF lo']) (use r in auto)
  have m: "lo mod base = base - 1 - r"
    by (rule int_mod_pos_eq[OF lo']) (use r in auto)
  have lo1: "lo + n * base = base - 1 - r"
    using lo' by (simp add: algebra_simps)
  show ?thesis
    using neg r unfolding norm_go_def n_def[symmetric] Let_def
    by (simp add: lo1 d m)
next
  case False
  assume b: "0 < base"
  show ?thesis
  proof (cases "lo \<ge> base")
    case True
    then show ?thesis using False b
      by (simp add: norm_go_def Let_def minus_mult_div_eq_mod algebra_simps)
  next
    case lt: False
    then show ?thesis using False b by (simp add: norm_go_def)
  qed
qed

lemma div_step:
  fixes y k :: int
  assumes "0 < k"
  shows "y div k = (y - 1) div k + (if y mod k = 0 then 1 else 0)"
proof (cases "y mod k = 0")
  case True
  then have "k * (y div k) = y" by (simp add: mod_eq_0_iff_dvd)
  then have "y - 1 = k * (y div k - 1) + (k - 1)"
    by (simp add: algebra_simps)
  then have "(y - 1) div k = y div k - 1"
    by (rule int_div_pos_eq) (use assms in auto)
  with True show ?thesis by simp
next
  case False
  have m: "0 \<le> y mod k" "y mod k < k" using assms by simp_all
  have "y - 1 = k * (y div k) + (y mod k - 1)"
    by (simp add: algebra_simps)
  then have "(y - 1) div k = y div k"
    by (rule int_div_pos_eq) (use m False in auto)
  with False show ?thesis by simp
qed

lemma mod_400_100: "(y::int) mod 400 = 0 \<Longrightarrow> y mod 100 = 0"
proof -
  assume h: "y mod 400 = 0"
  have "(100::int) dvd 400" by simp
  then have "y mod 400 mod 100 = y mod 100" by (rule mod_mod_cancel)
  with h show ?thesis by simp
qed

lemma mod_100_4: "(y::int) mod 100 = 0 \<Longrightarrow> y mod 4 = 0"
proof -
  assume h: "y mod 100 = 0"
  have "(4::int) dvd 100" by simp
  then have "y mod 100 mod 4 = y mod 4" by (rule mod_mod_cancel)
  with h show ?thesis by simp
qed


lemma div_step_dvd:
  fixes y k :: int
  shows "0 < k \<Longrightarrow> y mod k = 0 \<Longrightarrow> y div k = (y - 1) div k + 1"
  using div_step[of k y] by simp

lemma div_step_ndvd:
  fixes y k :: int
  shows "0 < k \<Longrightarrow> y mod k \<noteq> 0 \<Longrightarrow> y div k = (y - 1) div k"
  using div_step[of k y] by simp

lemma daysBeforeYear_Suc_eq: "daysBeforeYear (y + 1) = 365 * y + y div 4 - y div 100 + y div 400"
  by (simp add: daysBeforeYear_def)

lemma daysBeforeYear_Suc:
  "daysBeforeYear (y + 1) = daysBeforeYear y + (if isLeap y then 366 else 365)"
proof -
  consider (a) "y mod 4 \<noteq> 0" | (b) "y mod 4 = 0" "y mod 100 \<noteq> 0"
    | (c) "y mod 100 = 0" "y mod 400 \<noteq> 0" | (d) "y mod 400 = 0"
    by argo
  then show ?thesis
  proof cases
    case a
    then have n: "y mod 100 \<noteq> 0" "y mod 400 \<noteq> 0"
      using mod_400_100[of y] mod_100_4[of y] by argo+
    have "y div 4 = (y - 1) div 4" by (rule div_step_ndvd) (use a in simp_all)
    moreover have "y div 100 = (y - 1) div 100" by (rule div_step_ndvd) (use n in simp_all)
    moreover have "y div 400 = (y - 1) div 400" by (rule div_step_ndvd) (use n in simp_all)
    moreover have "\<not> isLeap y" using a by (simp add: isLeap_def)
    ultimately show ?thesis
      unfolding daysBeforeYear_Suc_eq by (simp add: daysBeforeYear_def)
  next
    case b
    then have n: "y mod 400 \<noteq> 0" using mod_400_100[of y] by argo
    have "y div 4 = (y - 1) div 4 + 1" by (rule div_step_dvd) (use b in simp_all)
    moreover have "y div 100 = (y - 1) div 100" by (rule div_step_ndvd) (use b in simp_all)
    moreover have "y div 400 = (y - 1) div 400" by (rule div_step_ndvd) (use n in simp_all)
    moreover have "isLeap y" using b by (simp add: isLeap_def)
    ultimately show ?thesis
      unfolding daysBeforeYear_Suc_eq by (simp add: daysBeforeYear_def)
  next
    case c
    then have n: "y mod 4 = 0" using mod_100_4[of y] by argo
    have "y div 4 = (y - 1) div 4 + 1" by (rule div_step_dvd) (use n in simp_all)
    moreover have "y div 100 = (y - 1) div 100 + 1" by (rule div_step_dvd) (use c in simp_all)
    moreover have "y div 400 = (y - 1) div 400" by (rule div_step_ndvd) (use c in simp_all)
    moreover have "\<not> isLeap y" using c by (simp add: isLeap_def)
    ultimately show ?thesis
      unfolding daysBeforeYear_Suc_eq by (simp add: daysBeforeYear_def)
  next
    case d
    then have n: "y mod 100 = 0" "y mod 4 = 0" using mod_400_100[of y] mod_100_4[of y] by argo+
    have "y div 4 = (y - 1) div 4 + 1" by (rule div_step_dvd) (use n in simp_all)
    moreover have "y div 100 = (y - 1) div 100 + 1" by (rule div_step_dvd) (use n in simp_all)
    moreover have "y div 400 = (y - 1) div 400 + 1" by (rule div_step_dvd) (use d in simp_all)
    moreover have "isLeap y" using d n by (simp add: isLeap_def)
    ultimately show ?thesis
      unfolding daysBeforeYear_Suc_eq by (simp add: daysBeforeYear_def)
  qed
qed

lemma Date_midnight:
  "Date y m d 0 0 0 0 =
     (daysSinceEpoch (y + (m - 1) div 12) + daysBefore ((m - 1) mod 12)
      + (if isLeap (y + (m - 1) div 12) \<and> (m - 1) mod 12 \<ge> 2 then 1 else 0) + (d - 1)) * nsPerDay"
  by (simp add: Date_def norm_go_eq nsPerDay_def Let_def)

lemma div_eqI:
  fixes x q B r :: int
  shows "x = B * q + r \<Longrightarrow> 0 \<le> r \<Longrightarrow> r < B \<Longrightarrow> x div B = q"
  by (rule int_div_pos_eq)

text \<open>The digits of a year: \<open>year - 1 = 400 a + 100 b + 4 c + e\<close>.\<close>

lemma year_digits:
  fixes Y :: int
  defines "a \<equiv> (Y - 1) div 400"
  defines "b \<equiv> (Y - 1) mod 400 div 100"
  defines "c \<equiv> (Y - 1) mod 400 mod 100 div 4"
  defines "e \<equiv> (Y - 1) mod 400 mod 100 mod 4"
  shows "Y - 1 = 400 * a + 100 * b + 4 * c + e"
    and "0 \<le> b" "b \<le> 3" "0 \<le> c" "c \<le> 24" "0 \<le> e" "e \<le> 3"
proof -
  define r where "r = (Y - 1) mod 400"
  define r2 where "r2 = r mod 100"
  have r: "0 \<le> r" "r < 400" by (simp_all add: r_def)
  have r2: "0 \<le> r2" "r2 < 100" by (simp_all add: r2_def)
  have 1: "Y - 1 = 400 * a + r" by (simp add: a_def r_def)
  have 2: "r = 100 * b + r2" by (simp add: b_def r2_def r_def)
  have 3: "r2 = 4 * c + e" by (simp add: c_def e_def r2_def r_def)
  show "Y - 1 = 400 * a + 100 * b + 4 * c + e" using 1 2 3 by linarith
  show "0 \<le> b" using r by (simp add: b_def r_def[symmetric] pos_imp_zdiv_nonneg_iff)
  show "b \<le> 3" using r 2 r2 by linarith
  show "0 \<le> e" by (simp add: e_def)
  show "e \<le> 3" 
  proof -
    have "e < 4" by (simp add: e_def)
    then show ?thesis by simp
  qed
  show "0 \<le> c" using r2 by (simp add: c_def r2_def[symmetric] r_def[symmetric] pos_imp_zdiv_nonneg_iff)
  show "c \<le> 24" using r2 3 \<open>0 \<le> e\<close> by linarith
qed

lemma daysBeforeYear_digits:
  fixes a b c e :: int
  assumes "0 \<le> b" "b \<le> 3" "0 \<le> c" "c \<le> 24" "0 \<le> e" "e \<le> 3"
  shows "daysBeforeYear (400 * a + 100 * b + 4 * c + e + 1)
           = 146097 * a + 36524 * b + 1461 * c + 365 * e"
proof -
  let ?Z = "400 * a + 100 * b + 4 * c + e"
  have d4: "?Z div 4 = 100 * a + 25 * b + c"
    by (rule div_eqI [where r = e]) (use assms in simp_all)
  have d100: "?Z div 100 = 4 * a + b"
    by (rule div_eqI [where r = "4 * c + e"]) (use assms in simp_all)
  have d400: "?Z div 400 = a"
    by (rule div_eqI [where r = "100 * b + 4 * c + e"]) (use assms in simp_all)
  show ?thesis
    unfolding daysBeforeYear_def by (simp add: d4 d100 d400)
qed

lemma isLeap_digits:
  fixes a b c e :: int
  assumes "0 \<le> b" "b \<le> 3" "0 \<le> c" "c \<le> 24" "0 \<le> e" "e \<le> 3"
  shows "isLeap (400 * a + 100 * b + 4 * c + e + 1) \<longleftrightarrow> e = 3 \<and> (c < 24 \<or> b = 3)"
proof -
  let ?Y = "400 * a + 100 * b + 4 * c + e + 1"
  have m4: "?Y mod 4 = 0 \<longleftrightarrow> e = 3"
  proof (cases "e = 3")
    case True
    have "?Y = 4 * (100 * a + 25 * b + c + 1)" using True by simp
    then show ?thesis using True by simp
  next
    case False
    have "?Y mod 4 = e + 1"
      by (rule int_mod_pos_eq [where q = "100 * a + 25 * b + c"]) (use assms False in simp_all)
    then show ?thesis using assms False by simp
  qed
  have m100: "?Y mod 100 = 0 \<longleftrightarrow> e = 3 \<and> c = 24"
  proof (cases "e = 3 \<and> c = 24")
    case True
    have "?Y = 100 * (4 * a + b + 1)" using True by simp
    then show ?thesis using True by simp
  next
    case False
    have "?Y mod 100 = 4 * c + e + 1"
      by (rule int_mod_pos_eq [where q = "4 * a + b"]) (use assms False in auto)
    then show ?thesis using assms False by auto
  qed
  have m400: "?Y mod 400 = 0 \<longleftrightarrow> e = 3 \<and> c = 24 \<and> b = 3"
  proof (cases "e = 3 \<and> c = 24 \<and> b = 3")
    case True
    have "?Y = 400 * (a + 1)" using True by simp
    then show ?thesis using True by simp
  next
    case False
    have "?Y mod 400 = 100 * b + 4 * c + e + 1"
      by (rule int_mod_pos_eq [where q = a]) (use assms False in auto)
    then show ?thesis using assms False by auto
  qed
  show ?thesis unfolding isLeap_def m4 m100 m400 using assms by auto
qed

lemma min3_div:
  fixes x q B :: int
  assumes "0 < B" "0 \<le> q" "q \<le> 3" "B * q \<le> x" "q < 3 \<Longrightarrow> x < B * (q + 1)"
  shows "min 3 (x div B) = q"
proof (cases "q < 3")
  case True
  have "x div B = q"
    by (rule div_eqI [where r = "x - B * q"]) (use assms True in \<open>simp_all add: algebra_simps\<close>)
  with True show ?thesis by simp
next
  case False
  then have q: "q = 3" using assms by simp
  have "(B * 3) div B \<le> x div B"
    by (rule zdiv_mono1) (use assms q in simp_all)
  then have "3 \<le> x div B" using assms(1) by simp
  then show ?thesis using q by simp
qed

lemma absYear_steps:
  assumes n400: "(days + 719162) div 146097 = a"
    and n100: "min 3 ((days + 719162 - 146097 * a) div 36524) = b"
    and n4: "(days + 719162 - 146097 * a - 36524 * b) div 1461 = c"
    and n1: "min 3 ((days + 719162 - 146097 * a - 36524 * b - 1461 * c) div 365) = e"
  shows "absYear days = (400 * a + 100 * b + 4 * c + e + 1,
                         days + 719162 - 146097 * a - 36524 * b - 1461 * c - 365 * e)"
  unfolding absYear_def Let_def n400 n100 n4 n1 by (rule refl)

lemma absYear_digits:
  fixes a b c e k :: int
  assumes b: "0 \<le> b" "b \<le> 3" and c: "0 \<le> c" "c \<le> 24" and e: "0 \<le> e" "e \<le> 3"
    and k: "0 \<le> k" "k \<le> 364 \<or> (k = 365 \<and> e = 3 \<and> (c < 24 \<or> b = 3))"
  shows "absYear (146097 * a + 36524 * b + 1461 * c + 365 * e + k - 719162)
           = (400 * a + 100 * b + 4 * c + e + 1, k)"
proof -
  let ?days = "146097 * a + 36524 * b + 1461 * c + 365 * e + k - 719162"
  let ?R3 = "365 * e + k"
  let ?R2 = "1461 * c + ?R3"
  let ?R1 = "36524 * b + ?R2"
  have R3: "0 \<le> ?R3" "?R3 < 1461" using e k by auto
  have R2: "0 \<le> ?R2" "?R2 < 36525" "b < 3 \<Longrightarrow> ?R2 < 36524" using c e k by auto
  have R1: "0 \<le> ?R1" "?R1 < 146097" using b c e k by auto
  have e0: "?days + 719162 = 146097 * a + ?R1" by simp
  have e1: "?days + 719162 - 146097 * a = ?R1" by simp
  have e2: "?days + 719162 - 146097 * a - 36524 * b = ?R2" by simp
  have e3: "?days + 719162 - 146097 * a - 36524 * b - 1461 * c = ?R3" by simp
  have e4: "?days + 719162 - 146097 * a - 36524 * b - 1461 * c - 365 * e = k" by simp
  have n400: "(?days + 719162) div 146097 = a"
    unfolding e0 by (rule div_eqI [where r = "?R1"]) (use R1 in simp_all)
  have n100: "min 3 ((?days + 719162 - 146097 * a) div 36524) = b"
    unfolding e1 by (rule min3_div) (use b R2 in simp_all)
  have n4: "(?days + 719162 - 146097 * a - 36524 * b) div 1461 = c"
    unfolding e2 by (rule div_eqI [where r = "?R3"]) (use R3 in simp_all)
  have n1: "min 3 ((?days + 719162 - 146097 * a - 36524 * b - 1461 * c) div 365) = e"
    unfolding e3 by (rule min3_div) (use e k in auto)
  show ?thesis
    using absYear_steps [OF n400 n100 n4 n1] unfolding e4 .
qed

lemma month_disj:
  fixes M :: int
  shows "1 \<le> M \<Longrightarrow> M \<le> 12 \<Longrightarrow>
    M = 1 \<or> M = 2 \<or> M = 3 \<or> M = 4 \<or> M = 5 \<or> M = 6 \<or> M = 7 \<or> M = 8 \<or> M = 9
    \<or> M = 10 \<or> M = 11 \<or> M = 12"
  by presburger

lemma month_cases:
  fixes M :: int
  assumes "1 \<le> M" "M \<le> 12"
  obtains "M = 1" | "M = 2" | "M = 3" | "M = 4" | "M = 5" | "M = 6"
        | "M = 7" | "M = 8" | "M = 9" | "M = 10" | "M = 11" | "M = 12"
  using month_disj [OF assms] by argo

lemma div31:
  fixes x q :: int
  shows "31 * q \<le> x \<Longrightarrow> x < 31 * q + 31 \<Longrightarrow> x div 31 = q"
  by (rule int_div_pos_eq [where r = "x - 31 * q"]) simp_all

lemma month_day_1: "0 \<le> x \<Longrightarrow> x < 31 \<Longrightarrow> monthDay x = (1, x - 0 + 1)"
proof -
  assume h: "0 \<le> x" "x < 31"
  have "x div 31 = 0" by (rule div31) (use h in simp_all)
  then show ?thesis using h by (simp add: monthDay_def daysBefore_def)
qed

lemma month_day_2: "31 \<le> x \<Longrightarrow> x < 59 \<Longrightarrow> monthDay x = (2, x - 31 + 1)"
proof -
  assume h: "31 \<le> x" "x < 59"
  have "x div 31 = 1" by (rule div31) (use h in simp_all)
  then show ?thesis using h by (simp add: monthDay_def daysBefore_def)
qed

lemma month_day_3: "59 \<le> x \<Longrightarrow> x < 90 \<Longrightarrow> monthDay x = (3, x - 59 + 1)"
proof (cases "x < 62")
  case True
  assume h: "59 \<le> x" "x < 90"
  have "x div 31 = 1" by (rule div31) (use h True in simp_all)
  then show ?thesis using h True by (simp add: monthDay_def daysBefore_def)
next
  case False
  assume h: "59 \<le> x" "x < 90"
  have "x div 31 = 2" by (rule div31) (use h False in simp_all)
  then show ?thesis using h False by (simp add: monthDay_def daysBefore_def)
qed

lemma month_day_4: "90 \<le> x \<Longrightarrow> x < 120 \<Longrightarrow> monthDay x = (4, x - 90 + 1)"
proof (cases "x < 93")
  case True
  assume h: "90 \<le> x" "x < 120"
  have "x div 31 = 2" by (rule div31) (use h True in simp_all)
  then show ?thesis using h True by (simp add: monthDay_def daysBefore_def)
next
  case False
  assume h: "90 \<le> x" "x < 120"
  have "x div 31 = 3" by (rule div31) (use h False in simp_all)
  then show ?thesis using h False by (simp add: monthDay_def daysBefore_def)
qed

lemma month_day_5: "120 \<le> x \<Longrightarrow> x < 151 \<Longrightarrow> monthDay x = (5, x - 120 + 1)"
proof (cases "x < 124")
  case True
  assume h: "120 \<le> x" "x < 151"
  have "x div 31 = 3" by (rule div31) (use h True in simp_all)
  then show ?thesis using h True by (simp add: monthDay_def daysBefore_def)
next
  case False
  assume h: "120 \<le> x" "x < 151"
  have "x div 31 = 4" by (rule div31) (use h False in simp_all)
  then show ?thesis using h False by (simp add: monthDay_def daysBefore_def)
qed

lemma month_day_6: "151 \<le> x \<Longrightarrow> x < 181 \<Longrightarrow> monthDay x = (6, x - 151 + 1)"
proof (cases "x < 155")
  case True
  assume h: "151 \<le> x" "x < 181"
  have "x div 31 = 4" by (rule div31) (use h True in simp_all)
  then show ?thesis using h True by (simp add: monthDay_def daysBefore_def)
next
  case False
  assume h: "151 \<le> x" "x < 181"
  have "x div 31 = 5" by (rule div31) (use h False in simp_all)
  then show ?thesis using h False by (simp add: monthDay_def daysBefore_def)
qed

lemma month_day_7: "181 \<le> x \<Longrightarrow> x < 212 \<Longrightarrow> monthDay x = (7, x - 181 + 1)"
proof (cases "x < 186")
  case True
  assume h: "181 \<le> x" "x < 212"
  have "x div 31 = 5" by (rule div31) (use h True in simp_all)
  then show ?thesis using h True by (simp add: monthDay_def daysBefore_def)
next
  case False
  assume h: "181 \<le> x" "x < 212"
  have "x div 31 = 6" by (rule div31) (use h False in simp_all)
  then show ?thesis using h False by (simp add: monthDay_def daysBefore_def)
qed

lemma month_day_8: "212 \<le> x \<Longrightarrow> x < 243 \<Longrightarrow> monthDay x = (8, x - 212 + 1)"
proof (cases "x < 217")
  case True
  assume h: "212 \<le> x" "x < 243"
  have "x div 31 = 6" by (rule div31) (use h True in simp_all)
  then show ?thesis using h True by (simp add: monthDay_def daysBefore_def)
next
  case False
  assume h: "212 \<le> x" "x < 243"
  have "x div 31 = 7" by (rule div31) (use h False in simp_all)
  then show ?thesis using h False by (simp add: monthDay_def daysBefore_def)
qed

lemma month_day_9: "243 \<le> x \<Longrightarrow> x < 273 \<Longrightarrow> monthDay x = (9, x - 243 + 1)"
proof (cases "x < 248")
  case True
  assume h: "243 \<le> x" "x < 273"
  have "x div 31 = 7" by (rule div31) (use h True in simp_all)
  then show ?thesis using h True by (simp add: monthDay_def daysBefore_def)
next
  case False
  assume h: "243 \<le> x" "x < 273"
  have "x div 31 = 8" by (rule div31) (use h False in simp_all)
  then show ?thesis using h False by (simp add: monthDay_def daysBefore_def)
qed

lemma month_day_10: "273 \<le> x \<Longrightarrow> x < 304 \<Longrightarrow> monthDay x = (10, x - 273 + 1)"
proof (cases "x < 279")
  case True
  assume h: "273 \<le> x" "x < 304"
  have "x div 31 = 8" by (rule div31) (use h True in simp_all)
  then show ?thesis using h True by (simp add: monthDay_def daysBefore_def)
next
  case False
  assume h: "273 \<le> x" "x < 304"
  have "x div 31 = 9" by (rule div31) (use h False in simp_all)
  then show ?thesis using h False by (simp add: monthDay_def daysBefore_def)
qed

lemma month_day_11: "304 \<le> x \<Longrightarrow> x < 334 \<Longrightarrow> monthDay x = (11, x - 304 + 1)"
proof (cases "x < 310")
  case True
  assume h: "304 \<le> x" "x < 334"
  have "x div 31 = 9" by (rule div31) (use h True in simp_all)
  then show ?thesis using h True by (simp add: monthDay_def daysBefore_def)
next
  case False
  assume h: "304 \<le> x" "x < 334"
  have "x div 31 = 10" by (rule div31) (use h False in simp_all)
  then show ?thesis using h False by (simp add: monthDay_def daysBefore_def)
qed

lemma month_day_12: "334 \<le> x \<Longrightarrow> x < 365 \<Longrightarrow> monthDay x = (12, x - 334 + 1)"
proof (cases "x < 341")
  case True
  assume h: "334 \<le> x" "x < 365"
  have "x div 31 = 10" by (rule div31) (use h True in simp_all)
  then show ?thesis using h True by (simp add: monthDay_def daysBefore_def)
next
  case False
  assume h: "334 \<le> x" "x < 365"
  have "x div 31 = 11" by (rule div31) (use h False in simp_all)
  then show ?thesis using h False by (simp add: monthDay_def daysBefore_def)
qed

lemma absYear_in_year:
  assumes k: "0 \<le> k" "k < (if isLeap Y then 366 else 365)"
  shows "absYear (daysSinceEpoch Y + k) = (Y, k)"
proof -
  define a where "a = (Y - 1) div 400"
  define b where "b = (Y - 1) mod 400 div 100"
  define c where "c = (Y - 1) mod 400 mod 100 div 4"
  define e where "e = (Y - 1) mod 400 mod 100 mod 4"
  note d = year_digits [of Y, folded a_def b_def c_def e_def]
  have Y: "Y = 400 * a + 100 * b + 4 * c + e + 1" using d(1) by simp
  have days: "daysBeforeYear Y = 146097 * a + 36524 * b + 1461 * c + 365 * e"
    unfolding Y by (rule daysBeforeYear_digits) (use d in simp_all)
  have leap: "isLeap Y \<longleftrightarrow> e = 3 \<and> (c < 24 \<or> b = 3)"
    unfolding Y by (rule isLeap_digits) (use d in simp_all)
  have k': "k \<le> 364 \<or> (k = 365 \<and> e = 3 \<and> (c < 24 \<or> b = 3))"
    using k leap by (auto split: if_splits)
  have "absYear (146097 * a + 36524 * b + 1461 * c + 365 * e + k - 719162)
          = (400 * a + 100 * b + 4 * c + e + 1, k)"
    by (rule absYear_digits) (use d k(1) k' in simp_all)
  then show ?thesis
    unfolding daysSinceEpoch_def days Y [symmetric] by (simp add: algebra_simps)
qed

lemma ydayDate_roundtrip:
  assumes M: "1 \<le> M" "M \<le> 12" and d: "1 \<le> d" "d \<le> daysIn M Y"
  shows "ydayDate Y (daysBefore (M - 1) + (if isLeap Y \<and> 3 \<le> M then 1 else 0) + d - 1) = (Y, M, d)"
  using M
proof (cases rule: month_cases)
  case 1
  have dd: "d \<le> (if isLeap Y \<and> M = 2 then 29 else 31)" using d(2) unfolding 1 by (simp add: daysIn_def daysBefore_def)
  have "monthDay (d - 1) = (1, d - 1 - 0 + 1)" by (rule month_day_1) (use d(1) dd 1 in simp_all)
  then show ?thesis using d(1) dd unfolding 1 by (simp add: ydayDate_def daysBefore_def)
next
  case 2
  have dd: "d \<le> (if isLeap Y \<and> M = 2 then 29 else 28)" using d(2) unfolding 2 by (simp add: daysIn_def daysBefore_def split: if_splits)
  show ?thesis
  proof (cases "d = 29")
    case True
    then have "isLeap Y" using dd 2 by (simp split: if_splits)
    then show ?thesis using True unfolding 2 by (simp add: ydayDate_def daysBefore_def)
  next
    case False
    then have d28: "d \<le> 28" using dd 2 by (simp split: if_splits)
    have "monthDay (30 + d) = (2, 30 + d - 31 + 1)" by (rule month_day_2) (use d(1) d28 in simp_all)
    then show ?thesis using d(1) d28 unfolding 2 by (simp add: ydayDate_def daysBefore_def)
  qed
next
  case 3
  have dd: "d \<le> (if isLeap Y \<and> M = 2 then 29 else 31)" using d(2) unfolding 3 by (simp add: daysIn_def daysBefore_def)
  have dd': "d \<le> 31" using dd 3 by simp
  have md: "monthDay (58 + d) = (3, 58 + d - 59 + 1)" by (rule month_day_3) (use d(1) dd' in simp_all)
  show ?thesis using d(1) dd' md unfolding 3 by (simp add: ydayDate_def daysBefore_def add.commute)
next
  case 4
  have dd: "d \<le> (if isLeap Y \<and> M = 2 then 29 else 30)" using d(2) unfolding 4 by (simp add: daysIn_def daysBefore_def)
  have dd': "d \<le> 30" using dd 4 by simp
  have md: "monthDay (89 + d) = (4, 89 + d - 90 + 1)" by (rule month_day_4) (use d(1) dd' in simp_all)
  show ?thesis using d(1) dd' md unfolding 4 by (simp add: ydayDate_def daysBefore_def add.commute)
next
  case 5
  have dd: "d \<le> (if isLeap Y \<and> M = 2 then 29 else 31)" using d(2) unfolding 5 by (simp add: daysIn_def daysBefore_def)
  have dd': "d \<le> 31" using dd 5 by simp
  have md: "monthDay (119 + d) = (5, 119 + d - 120 + 1)" by (rule month_day_5) (use d(1) dd' in simp_all)
  show ?thesis using d(1) dd' md unfolding 5 by (simp add: ydayDate_def daysBefore_def add.commute)
next
  case 6
  have dd: "d \<le> (if isLeap Y \<and> M = 2 then 29 else 30)" using d(2) unfolding 6 by (simp add: daysIn_def daysBefore_def)
  have dd': "d \<le> 30" using dd 6 by simp
  have md: "monthDay (150 + d) = (6, 150 + d - 151 + 1)" by (rule month_day_6) (use d(1) dd' in simp_all)
  show ?thesis using d(1) dd' md unfolding 6 by (simp add: ydayDate_def daysBefore_def add.commute)
next
  case 7
  have dd: "d \<le> (if isLeap Y \<and> M = 2 then 29 else 31)" using d(2) unfolding 7 by (simp add: daysIn_def daysBefore_def)
  have dd': "d \<le> 31" using dd 7 by simp
  have md: "monthDay (180 + d) = (7, 180 + d - 181 + 1)" by (rule month_day_7) (use d(1) dd' in simp_all)
  show ?thesis using d(1) dd' md unfolding 7 by (simp add: ydayDate_def daysBefore_def add.commute)
next
  case 8
  have dd: "d \<le> (if isLeap Y \<and> M = 2 then 29 else 31)" using d(2) unfolding 8 by (simp add: daysIn_def daysBefore_def)
  have dd': "d \<le> 31" using dd 8 by simp
  have md: "monthDay (211 + d) = (8, 211 + d - 212 + 1)" by (rule month_day_8) (use d(1) dd' in simp_all)
  show ?thesis using d(1) dd' md unfolding 8 by (simp add: ydayDate_def daysBefore_def add.commute)
next
  case 9
  have dd: "d \<le> (if isLeap Y \<and> M = 2 then 29 else 30)" using d(2) unfolding 9 by (simp add: daysIn_def daysBefore_def)
  have dd': "d \<le> 30" using dd 9 by simp
  have md: "monthDay (242 + d) = (9, 242 + d - 243 + 1)" by (rule month_day_9) (use d(1) dd' in simp_all)
  show ?thesis using d(1) dd' md unfolding 9 by (simp add: ydayDate_def daysBefore_def add.commute)
next
  case 10
  have dd: "d \<le> (if isLeap Y \<and> M = 2 then 29 else 31)" using d(2) unfolding 10 by (simp add: daysIn_def daysBefore_def)
  have dd': "d \<le> 31" using dd 10 by simp
  have md: "monthDay (272 + d) = (10, 272 + d - 273 + 1)" by (rule month_day_10) (use d(1) dd' in simp_all)
  show ?thesis using d(1) dd' md unfolding 10 by (simp add: ydayDate_def daysBefore_def add.commute)
next
  case 11
  have dd: "d \<le> (if isLeap Y \<and> M = 2 then 29 else 30)" using d(2) unfolding 11 by (simp add: daysIn_def daysBefore_def)
  have dd': "d \<le> 30" using dd 11 by simp
  have md: "monthDay (303 + d) = (11, 303 + d - 304 + 1)" by (rule month_day_11) (use d(1) dd' in simp_all)
  show ?thesis using d(1) dd' md unfolding 11 by (simp add: ydayDate_def daysBefore_def add.commute)
next
  case 12
  have dd: "d \<le> (if isLeap Y \<and> M = 2 then 29 else 31)" using d(2) unfolding 12 by (simp add: daysIn_def daysBefore_def)
  have dd': "d \<le> 31" using dd 12 by simp
  have md: "monthDay (333 + d) = (12, 333 + d - 334 + 1)" by (rule month_day_12) (use d(1) dd' in simp_all)
  show ?thesis using d(1) dd' md unfolding 12 by (simp add: ydayDate_def daysBefore_def add.commute)
qed

lemma yday_bound:
  assumes M: "1 \<le> M" "M \<le> 12" and d: "1 \<le> d" "d \<le> daysIn M Y"
  shows "0 \<le> daysBefore (M - 1) + (if isLeap Y \<and> 3 \<le> M then 1 else 0) + d - 1"
    and "daysBefore (M - 1) + (if isLeap Y \<and> 3 \<le> M then 1 else 0) + d - 1
           < (if isLeap Y then 366 else 365)"
  using M by (cases rule: month_cases; use d in \<open>simp add: daysIn_def daysBefore_def split: if_splits\<close>)+

lemma absDate_roundtrip:
  assumes M: "1 \<le> M" "M \<le> 12" and d: "1 \<le> d" "d \<le> daysIn M Y"
  shows "absDate (daysSinceEpoch Y + daysBefore (M - 1)
                  + (if isLeap Y \<and> 3 \<le> M then 1 else 0) + (d - 1)) = (Y, M, d)"
proof -
  let ?k = "daysBefore (M - 1) + (if isLeap Y \<and> 3 \<le> M then 1 else 0) + d - 1"
  have "absYear (daysSinceEpoch Y + ?k) = (Y, ?k)"
    by (rule absYear_in_year) (rule yday_bound [OF M d])+
  moreover have "ydayDate Y ?k = (Y, M, d)"
    by (rule ydayDate_roundtrip [OF M d])
  moreover have "daysSinceEpoch Y + daysBefore (M - 1)
                  + (if isLeap Y \<and> 3 \<le> M then 1 else 0) + (d - 1) = daysSinceEpoch Y + ?k"
    by simp
  ultimately show ?thesis by (simp only: absDate_def Let_def split_conv)
qed

lemma TimeDate_days: "TimeDate (n * nsPerDay) = absDate n"
  by (simp add: TimeDate_def nsPerDay_def)

lemma TimeClock_days: "TimeClock (n * nsPerDay) = (0, 0, 0)"
proof -
  have "n * nsPerDay div 1000000000 = n * 86400" by (simp add: nsPerDay_def)
  then show ?thesis by (simp add: TimeClock_def)
qed

lemma Nanosecond_days: "Nanosecond (n * nsPerDay) = 0"
  by (simp add: Nanosecond_def nsPerDay_def)

lemma TimeDate_Date:
  assumes d: "1 \<le> d" "d \<le> daysIn ((m - 1) mod 12 + 1) (y + (m - 1) div 12)"
  shows "TimeDate (Date y m d 0 0 0 0) = (y + (m - 1) div 12, (m - 1) mod 12 + 1, d)"
proof -
  let ?Y = "y + (m - 1) div 12" and ?M = "(m - 1) mod 12 + 1"
  have M: "1 \<le> ?M" "?M \<le> 12" by simp_all
  have "absDate (daysSinceEpoch ?Y + daysBefore (?M - 1)
                  + (if isLeap ?Y \<and> 3 \<le> ?M then 1 else 0) + (d - 1)) = (?Y, ?M, d)"
    by (rule absDate_roundtrip [OF M d])
  moreover have "(3 \<le> ?M) = (2 \<le> (m - 1) mod 12)" by linarith
  ultimately show ?thesis
    unfolding Date_midnight TimeDate_days by simp
qed

lemma Date_month_shift: "Date y (m + 12 * q) d 0 0 0 0 = Date (y + q) m d 0 0 0 0"
proof -
  have "(m + 12 * q - 1) div 12 = (m - 1) div 12 + q"
    using div_mult_self2 [of 12 "m - 1" q] by (simp add: algebra_simps)
  moreover have "(m + 12 * q - 1) mod 12 = (m - 1) mod 12"
    using mod_mult_self2 [of "m - 1" 12 q] by (simp add: algebra_simps)
  ultimately show ?thesis
    unfolding Date_midnight by (simp add: algebra_simps)
qed


lemma Date_add_days: "Date y m (d + k) 0 0 0 0 = Date y m d 0 0 0 0 + k * nsPerDay"
  unfolding Date_midnight by (simp add: algebra_simps)

lemma daysSinceEpoch_Suc:
  "daysSinceEpoch (y + 1) = daysSinceEpoch y + (if isLeap y then 366 else 365)"
  by (simp add: daysSinceEpoch_def daysBeforeYear_Suc)

text \<open>Day 0 of a month in 1 .. 12 is the last day of the month before.\<close>

lemma Date_day0_normal:
  assumes M: "1 \<le> M" "M \<le> 12"
  shows "Date Y (M + 1) 0 0 0 0 0 = Date Y M (daysIn M Y) 0 0 0 0"
  using M
proof (cases rule: month_cases)
  case 12
  have "Date Y 13 0 0 0 0 0 = Date (Y + 1) 1 0 0 0 0 0"
    using Date_month_shift [of Y 1 1 0] by simp
  then show ?thesis
    unfolding 12 by (simp add: Date_midnight daysSinceEpoch_Suc daysIn_def daysBefore_def)
qed (simp_all add: Date_midnight daysIn_def daysBefore_def)

lemma Date_day0_prev:
  "Date y m 0 0 0 0 0
     = Date y (m - 1) (daysIn ((m - 2) mod 12 + 1) (y + (m - 2) div 12)) 0 0 0 0"
proof -
  let ?Y = "y + (m - 2) div 12" and ?M = "(m - 2) mod 12 + 1"
  have M: "1 \<le> ?M" "?M \<le> 12" by simp_all
  have "Date y m 0 0 0 0 0 = Date y ((?M + 1) + 12 * ((m - 2) div 12)) 0 0 0 0 0"
    by simp
  also have "\<dots> = Date ?Y (?M + 1) 0 0 0 0 0" by (simp only: Date_month_shift)
  also have "\<dots> = Date ?Y ?M (daysIn ?M ?Y) 0 0 0 0" by (rule Date_day0_normal [OF M])
  also have "\<dots> = Date y (?M + 12 * ((m - 2) div 12)) (daysIn ?M ?Y) 0 0 0 0"
    by (simp only: Date_month_shift)
  also have "?M + 12 * ((m - 2) div 12) = m - 1" by simp
  finally show ?thesis .
qed

lemma daysIn_pos: "1 \<le> M \<Longrightarrow> M \<le> 12 \<Longrightarrow> 1 \<le> daysIn M Y"
  by (erule (1) month_cases) (simp_all add: daysIn_def daysBefore_def)

lemma TimeDate_day0:
  "TimeDate (Date y m 0 0 0 0 0)
     = (y + (m - 2) div 12, (m - 2) mod 12 + 1, daysIn ((m - 2) mod 12 + 1) (y + (m - 2) div 12))"
proof -
  let ?Y = "y + (m - 2) div 12" and ?M = "(m - 2) mod 12 + 1"
  have M: "1 \<le> ?M" "?M \<le> 12" by simp_all
  have "TimeDate (Date y (m - 1) (daysIn ?M ?Y) 0 0 0 0)
          = (y + (m - 1 - 1) div 12, (m - 1 - 1) mod 12 + 1, daysIn ?M ?Y)"
    by (rule TimeDate_Date) (use daysIn_pos [OF M] in simp_all)
  then show ?thesis by (simp add: Date_day0_prev [symmetric])
qed

lemma AddDate_day0:
  "AddDate (Date y m 0 0 0 0 0) 0 1 0
     = Date y m (daysIn ((m - 2) mod 12 + 1) (y + (m - 2) div 12)) 0 0 0 0"
proof -
  let ?Y = "y + (m - 2) div 12" and ?M = "(m - 2) mod 12 + 1"
  let ?L = "daysIn ?M ?Y"
  obtain n where t: "Date y m 0 0 0 0 0 = n * nsPerDay"
    unfolding Date_midnight by blast
  have "AddDate (Date y m 0 0 0 0 0) 0 1 0 = Date ?Y (?M + 1) ?L 0 0 0 0"
    unfolding AddDate_def TimeDate_day0
    by (simp add: t TimeClock_days Nanosecond_days)
  also have "\<dots> = Date y ((?M + 1) + 12 * ((m - 2) div 12)) ?L 0 0 0 0"
    by (simp only: Date_month_shift)
  also have "(?M + 1) + 12 * ((m - 2) div 12) = m" by simp
  finally show ?thesis .
qed

lemma in_window_boundary:
  "start e = lo \<or> start e = hi \<Longrightarrow> \<not> in_window lo hi e"
  by (auto simp: in_window_def)

lemma total_boundary:
  "start e = Date y m 0 0 0 0 0 \<or> start e = AddDate (Date y m 0 0 0 0 0) 0 1 0 \<Longrightarrow>
   ParseInt ms = Inr m \<Longrightarrow> ParseInt ys = Inr y \<Longrightarrow> time_entries db = Some rows \<Longrightarrow>
     total [ms, ys] (db\<lparr>time_entries := Some (rows @ [e])\<rparr>) = total [ms, ys] db"
  by (simp add: total_def Let_def in_window_boundary)

lemma total_money_boundary:
  "start e = Date y m 0 0 0 0 0 \<or> start e = AddDate (Date y m 0 0 0 0 0) 0 1 0 \<Longrightarrow>
   ParseInt ms = Inr m \<Longrightarrow> ParseInt ys = Inr y \<Longrightarrow> time_entries db = Some rows \<Longrightarrow>
     total_money [ms, ys] (db\<lparr>time_entries := Some (rows @ [e])\<rparr>) = total_money [ms, ys] db"
  by (simp add: total_money_def Let_def in_window_boundary split: option.splits)

lemma in_window_filter: "filter (in_window lo hi) rows = filter (\<lambda>e. lo < start e \<and> start e < hi) rows"
  by (simp add: in_window_def [abs_def])

lemma Date_midnight_mod: "Date y m d 0 0 0 0 mod nsPerDay = 0"
  unfolding Date_midnight by simp








subsection \<open>The reporting window\<close>

text \<open>
  Claim C1. For every month \<open>m\<close> and year \<open>y\<close> (as parsed from the arguments),
  \<open>total\<close> and \<open>total_money\<close> use the window from \<open>lo = Date(y, m, 0)\<close> to
  \<open>hi = lo.AddDate(0, 1, 0)\<close> and count exactly the entries with \<open>lo < start < hi\<close>.
  \<open>lo\<close> is one day before the first of month \<open>m\<close>, at midnight UTC, and its civil date is
  the last day of the month \<open>(py, pm)\<close> before \<open>m\<close>; \<open>hi\<close> is day \<open>daysIn pm py\<close> of month
  \<open>m\<close>, that many days after \<open>lo\<close>. An entry that starts exactly on \<open>lo\<close> or on \<open>hi\<close>
  changes neither total.
\<close>

theorem C1_reporting_window:
  assumes "ParseInt ms = Inr m" and "ParseInt ys = Inr y" and "time_entries db = Some rows"
    and "lo = Date y m 0 0 0 0 0" and "hi = AddDate lo 0 1 0"
    and "py = y + (m - 2) div 12" and "pm = (m - 2) mod 12 + 1"
    and "s = sum_list (map duration (filter (\<lambda>e. lo < start e \<and> start e < hi) rows))"
  shows "total [ms, ys] db = Inr s
    \<and> (wage db = Some wrows \<and> tax db = Some trows \<longrightarrow>
         total_money [ms, ys] db =
           Inr (real_of_int s / 3600000000000
                * coalesce (select_rate_limit_1 wrows) 0
                * (1 - coalesce (select_rate_limit_1 trows) 0)))
    \<and> lo = Date y m 1 0 0 0 0 - nsPerDay
    \<and> lo mod nsPerDay = 0
    \<and> 1 \<le> pm \<and> pm \<le> 12
    \<and> Date py (pm + 1) 1 0 0 0 0 = Date y m 1 0 0 0 0
    \<and> TimeDate lo = (py, pm, daysIn pm py)
    \<and> hi = Date y m (daysIn pm py) 0 0 0 0
    \<and> hi = lo + daysIn pm py * nsPerDay
    \<and> (start e = lo \<or> start e = hi \<longrightarrow>
         total [ms, ys] (db\<lparr>time_entries := Some (rows @ [e])\<rparr>) = total [ms, ys] db
         \<and> total_money [ms, ys] (db\<lparr>time_entries := Some (rows @ [e])\<rparr>)
             = total_money [ms, ys] db)"
proof -
  note p = assms(1,2,3)
  have s: "s = sum_list (map duration
              (filter (in_window (Date y m 0 0 0 0 0) (AddDate (Date y m 0 0 0 0 0) 0 1 0)) rows))"
    unfolding assms(8) assms(5) assms(4) by (simp only: in_window_filter)
  have t: "total [ms, ys] db = Inr s"
    unfolding s by (rule total_parsed [OF p])
  have tm: "total_money [ms, ys] db =
           Inr (real_of_int s / 3600000000000
                * coalesce (select_rate_limit_1 wrows) 0
                * (1 - coalesce (select_rate_limit_1 trows) 0))"
    if "wage db = Some wrows" "tax db = Some trows"
    unfolding s by (rule total_money_parsed [OF p that])
  have day_before: "lo = Date y m 1 0 0 0 0 - nsPerDay"
    unfolding assms(4) using Date_add_days [of y m 0 1] by simp
  have midnight: "lo mod nsPerDay = 0"
    unfolding assms(4) by (rule Date_midnight_mod)
  have pm: "1 \<le> pm" "pm \<le> 12" unfolding assms(7) by simp_all
  have prev: "Date py (pm + 1) 1 0 0 0 0 = Date y m 1 0 0 0 0"
  proof -
    have "Date y ((pm + 1) + 12 * ((m - 2) div 12)) 1 0 0 0 0 = Date py (pm + 1) 1 0 0 0 0"
      unfolding assms(6) by (rule Date_month_shift)
    moreover have "(pm + 1) + 12 * ((m - 2) div 12) = m" unfolding assms(7) by simp
    ultimately show ?thesis by simp
  qed
  have civil: "TimeDate lo = (py, pm, daysIn pm py)"
    unfolding assms(4) assms(6) assms(7) by (rule TimeDate_day0)
  have hi1: "hi = Date y m (daysIn pm py) 0 0 0 0"
    unfolding assms(5) assms(4) assms(6) assms(7) by (rule AddDate_day0)
  have hi2: "hi = lo + daysIn pm py * nsPerDay"
    unfolding hi1 assms(4) using Date_add_days [of y m 0 "daysIn pm py"] by simp
  have boundary: "total [ms, ys] (db\<lparr>time_entries := Some (rows @ [e])\<rparr>) = total [ms, ys] db
         \<and> total_money [ms, ys] (db\<lparr>time_entries := Some (rows @ [e])\<rparr>)
             = total_money [ms, ys] db"
    if "start e = lo \<or> start e = hi"
    using that total_boundary [OF _ p, of e] total_money_boundary [OF _ p, of e]
    unfolding assms(5) assms(4) by blast
  show ?thesis
    using t tm day_before midnight pm prev civil hi1 hi2 boundary by blast
qed

theorem C1_reporting_window_witness:
  "ParseInt ''3'' = Inr 3 \<and> ParseInt ''2024'' = Inr 2024
   \<and> Date 2024 3 0 0 0 0 0 = 1709164800000000000
   \<and> AddDate 1709164800000000000 0 1 0 = 1711670400000000000
   \<and> total [''3'', ''2024''] example_store = Inr 7200000000000
   \<and> total_money [''3'', ''2024''] example_store = Inr 100
   \<and> TimeDate 1709164800000000000 = (2024, 2, 29)
   \<and> (1711670400000000000 :: int) = 1709164800000000000 + 29 * nsPerDay
   \<and> total [''3'', ''2024'']
        (example_store\<lparr>time_entries := Some
          [\<lparr>entry_id = 1, start = 1709164800000000000, duration = 3600000000000,
             description = ''on the lower boundary''\<rparr>,
           \<lparr>entry_id = 2, start = 1710496800000000000, duration = 7200000000000,
             description = ''inside''\<rparr>,
           \<lparr>entry_id = 3, start = 1711670400000000000, duration = 60000000000,
             description = ''on the upper boundary''\<rparr>]\<rparr>)
       = total [''3'', ''2024''] example_store"
proof -
  let ?rows = "[\<lparr>entry_id = 1, start = 1709164800000000000, duration = 3600000000000,
              description = ''on the lower boundary''\<rparr>,
            \<lparr>entry_id = 2, start = 1710496800000000000, duration = 7200000000000,
              description = ''inside''\<rparr>]"
  let ?e = "\<lparr>entry_id = 3, start = 1711670400000000000, duration = 60000000000,
             description = ''on the upper boundary''\<rparr>"
  have h3: "time_entries example_store = Some ?rows" by (simp add: example_store_def)
  have h4: "(1709164800000000000 :: int) = Date 2024 3 0 0 0 0 0"
    by (simp only: window_start_March_2024)
  have h5: "(1711670400000000000 :: int) = AddDate 1709164800000000000 0 1 0"
    by (simp only: window_end_March_2024)
  have h6: "(2024 :: int) = 2024 + (3 - 2) div 12" by simp
  have h7: "(2 :: int) = (3 - 2) mod 12 + 1" by simp
  have h8: "(7200000000000 :: int) = sum_list (map duration
              (filter (\<lambda>e. 1709164800000000000 < start e \<and> start e < 1711670400000000000) ?rows))"
    by simp
  note w = C1_reporting_window [where wrows = "[100]" and trows = "[1 / 2]" and e = ?e,
             OF ParseInt_3 ParseInt_2024 h3 h4 h5 h6 h7 h8]
  have c_total: "total [''3'', ''2024''] example_store = Inr 7200000000000"
    by (rule w [THEN conjunct1])
  have "wage example_store = Some [100] \<and> tax example_store = Some [1 / 2]"
    by (simp add: example_store_def)
  from w [THEN conjunct2, THEN conjunct1, THEN mp, OF this]
  have c_money: "total_money [''3'', ''2024''] example_store = Inr 100"
    by (simp add: coalesce_def select_rate_limit_1_def)
  have d29: "daysIn 2 2024 = 29" by (simp add: daysIn_def isLeap_def)
  have c_civil: "TimeDate 1709164800000000000 = (2024, 2, 29)"
    using w [THEN conjunct2, THEN conjunct2, THEN conjunct2, THEN conjunct2, THEN conjunct2,
             THEN conjunct2, THEN conjunct2, THEN conjunct1]
    by (simp only: d29)
  have c_len: "(1711670400000000000 :: int) = 1709164800000000000 + 29 * nsPerDay"
    using w [THEN conjunct2, THEN conjunct2, THEN conjunct2, THEN conjunct2, THEN conjunct2,
             THEN conjunct2, THEN conjunct2, THEN conjunct2, THEN conjunct2, THEN conjunct1]
    by (simp only: d29)
  have "start ?e = 1709164800000000000 \<or> start ?e = 1711670400000000000" by simp
  from w [THEN conjunct2, THEN conjunct2, THEN conjunct2, THEN conjunct2, THEN conjunct2,
          THEN conjunct2, THEN conjunct2, THEN conjunct2, THEN conjunct2, THEN conjunct2,
          THEN mp, OF this, THEN conjunct1]
  have c_boundary: "total [''3'', ''2024''] (example_store\<lparr>time_entries := Some (?rows @ [?e])\<rparr>)
       = total [''3'', ''2024''] example_store" .
  show ?thesis
    using c_total c_money c_civil c_len c_boundary
    by (simp add: ParseInt_3 ParseInt_2024 window_start_March_2024 window_end_March_2024)
qed

subsection \<open>Months outside 1 to 12\<close>



subsection \<open>Totals over an empty entry table\<close>



subsection \<open>\<open>total_money\<close> and the stored rates\<close>



subsection \<open>Usage text and exit status\<close>

text \<open>
  Claim C7 says that a missing or unknown command prints the usage text and exits with a
  non-zero status. It fails for an unknown command: the \<open>default\<close> branch of the switch
  prints the usage text and falls through to \<open>cleanup()\<close> and the end of \<open>main\<close>, so the
  status is 0.
\<close>

theorem C7_unknown_command_exits_zero:
  "trace (main example_env [''time_tracker'', ''frobnicate''] example_store)
     = [Open, Printf MsgUsage, Close]
   \<and> exit_status (ending (main example_env [''time_tracker'', ''frobnicate''] example_store)) = 0"
  by (simp add: main_def setup_go_def example_env_simps print_usage_def cleanup_def
        exit_status_def)

text \<open>
  Claim C7 as amended. Once \<open>setup\<close> has succeeded: with no command name the process
  prints the usage text and calls \<open>os.Exit(-1)\<close> (status 255, no cleanup); with a command
  name that is none of the six commands it prints the usage text, runs the cleanup and
  returns from \<open>main\<close> with status 0, the store untouched.
\<close>

theorem C7_usage_paths:
  "UserHomeDir ev = Some home \<Longrightarrow>
     (length Args < 2 \<longrightarrow>
        trace (main ev Args db) = [Open, Printf MsgUsage]
        \<and> ending (main ev Args db) = Exited (- 1)
        \<and> exit_status (ending (main ev Args db)) = 255)
     \<and> (2 \<le> length Args
         \<and> Args ! 1 \<notin> {''add'', ''total'', ''total_money'', ''init'', ''set_tax'', ''set_wage''} \<longrightarrow>
        trace (main ev Args db) = [Open, Printf MsgUsage, Close]
        \<and> ending (main ev Args db) = MainReturned
        \<and> exit_status (ending (main ev Args db)) = 0
        \<and> final (main ev Args db) = db)"
  by (simp add: main_def setup_go_def print_usage_def cleanup_def exit_status_def Let_def)

theorem C7_usage_paths_witness:
  "UserHomeDir example_env = Some ''/home/user''
   \<and> trace (main example_env [''time_tracker''] example_store) = [Open, Printf MsgUsage]
   \<and> exit_status (ending (main example_env [''time_tracker''] example_store)) = 255
   \<and> trace (main example_env [''time_tracker'', ''help''] example_store)
       = [Open, Printf MsgUsage, Close]
   \<and> exit_status (ending (main example_env [''time_tracker'', ''help''] example_store)) = 0"
  using C7_usage_paths [of example_env "''/home/user''" "[''time_tracker'']" example_store]
        C7_usage_paths [of example_env "''/home/user''" "[''time_tracker'', ''help'']" example_store]
  by (simp add: example_env_simps exit_status_def)

subsection \<open>Cleanup after \<open>set_tax\<close> and \<open>set_wage\<close>\<close>

text \<open>
  Claim C8 says that every dispatched command runs the cleanup before the process ends,
  \<open>set_tax\<close> and \<open>set_wage\<close> included. Both branches of both commands \<open>return\<close> from
  \<open>main\<close> before the \<open>cleanup()\<close> call that the other commands reach: the trace of such a
  run has the \<open>Open\<close> and the message, and no \<open>Close\<close>.
\<close>

theorem C8_rate_setters_skip_cleanup:
  "main example_env [''time_tracker'', ''set_tax'', ''0.5''] example_store
     = \<lparr>trace = [Open, Printf (MsgSetTaxOk (1 / 2))], ending = MainReturned,
        final = example_store\<lparr>tax := Some [1 / 2]\<rparr>\<rparr>
   \<and> main example_env [''time_tracker'', ''set_wage'', ''2''] example_store
     = \<lparr>trace = [Open, Printf (MsgSetTaxOk 2)], ending = MainReturned,
        final = example_store\<lparr>wage := Some [2]\<rparr>\<rparr>
   \<and> main example_env [''time_tracker'', ''set_tax''] example_store
     = \<lparr>trace = [Open, Printf (MsgSetTaxFailed ErrArgs)], ending = MainReturned,
        final = example_store\<rparr>
   \<and> main example_env [''time_tracker'', ''set_wage''] example_store
     = \<lparr>trace = [Open, Printf (MsgSetTaxFailed ErrArgs)], ending = MainReturned,
        final = example_store\<rparr>"
  by (simp add: main_def setup_go_def set_tax_def set_wage_def example_env_simps
        example_ParseFloat_def example_store_simps)

section \<open>Further properties\<close>

text \<open>
  X1. On a store without tables, and with the directory created, \<open>initialize\<close> succeeds and
  leaves an empty \<open>time_entries\<close> table and one row of rate 0 in each of \<open>tax\<close> and \<open>wage\<close>.
\<close>

theorem X1_initialize_creates_schema:
  "MkdirAll ev dir = None \<Longrightarrow>
     initialize ev dir \<lparr>time_entries = None, tax = None, wage = None\<rparr>
       = (None, \<lparr>time_entries = Some [], tax = Some [0], wage = Some [0]\<rparr>)"
  by (simp add: initialize_def exec_schema_def)

theorem X1_initialize_creates_schema_witness:
  "MkdirAll example_env ''/home/user/.config/time_tracker/'' = None
   \<and> initialize example_env ''/home/user/.config/time_tracker/''
         \<lparr>time_entries = None, tax = None, wage = None\<rparr> = (None, empty_store)"
  using X1_initialize_creates_schema [of example_env "''/home/user/.config/time_tracker/''"]
  by (simp add: example_env_simps empty_store_def)

text \<open>
  X2. \<open>initialize\<close> is not idempotent: on a store whose \<open>time_entries\<close> table exists it
  fails (with the directory error, or else with the storage error of the first
  \<open>create table\<close>) and changes nothing.
\<close>

theorem X2_initialize_not_idempotent:
  "time_entries db \<noteq> None \<Longrightarrow>
     initialize ev dir db = (case MkdirAll ev dir of Some err \<Rightarrow> Some err | None \<Rightarrow> Some ErrStorage, db)"
  by (simp add: initialize_def exec_schema_def split: option.splits)

theorem X2_initialize_not_idempotent_witness:
  "time_entries empty_store \<noteq> None
   \<and> initialize example_env ''/home/user/.config/time_tracker/'' empty_store
       = (Some ErrStorage, empty_store)"
  using X2_initialize_not_idempotent [of empty_store example_env "''/home/user/.config/time_tracker/''"]
  by (simp add: example_env_simps empty_store_def)

text \<open>
  X3. With one argument that parses and the rate tables in place, \<open>set_tax\<close> and \<open>set_wage\<close>
  return the parsed rate and overwrite every row of their own table with it, keeping the
  number of rows and touching nothing else.
\<close>

theorem X3_rate_setters_overwrite_in_place:
  "ParseFloat ev a = Inr r \<Longrightarrow> tax db = Some trows \<Longrightarrow> wage db = Some wrows \<Longrightarrow>
     set_tax ev [a] db = (Inr r, db\<lparr>tax := Some (replicate (length trows) r)\<rparr>)
     \<and> set_wage ev [a] db = (Inr r, db\<lparr>wage := Some (replicate (length wrows) r)\<rparr>)"
  by (simp add: set_tax_def set_wage_def map_replicate_const)

theorem X3_rate_setters_overwrite_in_place_witness:
  "ParseFloat example_env ''0.5'' = Inr (1 / 2)
   \<and> set_tax example_env [''0.5''] empty_store = (Inr (1 / 2), empty_store\<lparr>tax := Some [1 / 2]\<rparr>)
   \<and> set_wage example_env [''0.5''] empty_store = (Inr (1 / 2), empty_store\<lparr>wage := Some [1 / 2]\<rparr>)"
  using X3_rate_setters_overwrite_in_place [of example_env "''0.5''" "1 / 2" empty_store "[0]" "[0]"]
  by (simp add: example_env_simps example_ParseFloat_def empty_store_def)

text \<open>
  X4. \<open>total\<close> and \<open>total_money\<close> fail with the argument-count error unless they get
  exactly two arguments.
\<close>

theorem X4_totals_argument_count:
  "length args \<noteq> 2 \<Longrightarrow> total args db = Inl ErrArgs \<and> total_money args db = Inl ErrArgs"
  by (simp add: total_def total_money_def)

theorem X4_totals_argument_count_witness:
  "length [''3''] \<noteq> 2
   \<and> total [''3''] example_store = Inl ErrArgs \<and> total_money [''3''] example_store = Inl ErrArgs"
  using X4_totals_argument_count [of "[''3'']" example_store]
  by simp

text \<open>
  X5. The worked example: on an initialised store, \<open>set_wage 100\<close>, \<open>set_tax 0.5\<close> and
  \<open>add 2h work\<close> (at 2024-03-15T12:00:00Z), then the totals for March 2024 are two hours
  and 2 * 100 * (1 - 0.5) = 100.
\<close>

theorem X5_wage_tax_example:
  "(case add example_env [''2h'', ''work'']
           (snd (set_tax example_env [''0.5''] (snd (set_wage example_env [''100''] empty_store)))) of
      Returned (err, db) \<Rightarrow>
        (err, total [''3'', ''2024''] db, total_money [''3'', ''2024''] db)
    | Panicked \<Rightarrow> (Some ErrStorage, Inl ErrStorage, Inl ErrStorage))
   = (None, Inr 7200000000000, Inr 100)"
proof -
  have db1: "snd (set_tax example_env [''0.5''] (snd (set_wage example_env [''100''] empty_store)))
        = \<lparr>time_entries = Some [], tax = Some [1 / 2], wage = Some [100]\<rparr>"
    by (simp add: set_tax_def set_wage_def example_env_simps example_ParseFloat_def empty_store_def)
  have dur: "add_duration example_env [''2h'', ''work''] = Returned (Inr 7200000000000)"
    using add_duration_unit [of "CHR ''h''" example_env "''2''" "[''work'']"]
    by (simp add: example_env_simps example_ParseFloat_def Hour_def Minute_def Second_def
          Duration_of_float64_def)
  have db2: "add example_env [''2h'', ''work'']
               \<lparr>time_entries = Some [], tax = Some [1 / 2], wage = Some [100]\<rparr>
        = Returned (None, \<lparr>time_entries = Some
            [\<lparr>entry_id = 1, start = 1710496800000000000, duration = 7200000000000,
              description = ''work''\<rparr>], tax = Some [1 / 2], wage = Some [100]\<rparr>)"
    by (simp add: add_def dur example_env_simps next_id_def)
  show ?thesis
    unfolding db1 db2
    by (simp add: total_def total_money_def ParseInt_3 ParseInt_2024 window_start_March_2024
          window_end_March_2024 in_window_def coalesce_def sql_sum_def select_rate_limit_1_def)
qed

text \<open>
  X6. An entry recorded by \<open>add\<close> contributes its duration to \<open>total\<close> for a window exactly
  when its start, the current time minus the duration, lies strictly inside that window.
\<close>

theorem X6_added_entry_counts_in_its_window:
  assumes "ParseFloat ev p = Inr n" and "u \<in> {CHR ''h'', CHR ''m'', CHR ''s''}"
    and "time_entries db = Some rows"
    and "add ev ((p @ [u]) # words) db = Returned (None, db')"
    and "ParseInt ms = Inr m" and "ParseInt ys = Inr y"
    and "total [ms, ys] db = Inr before"
    and "lo = Date y m 0 0 0 0 0" and "hi = AddDate lo 0 1 0"
    and "dur = Duration_of_float64
          (real_of_int (if u = CHR ''h'' then Hour else if u = CHR ''m'' then Minute else Second) * n)"
  shows "total [ms, ys] db' =
           Inr (if lo < Now ev - dur \<and> Now ev - dur < hi then before + dur else before)"
proof -
  have db': "db' = db\<lparr>time_entries := Some (rows @
         [\<lparr>entry_id = next_id rows, start = Now ev - dur, duration = dur,
           description = Join words '' ''\<rparr>])\<rparr>"
    using assms(1,3,4,10) by (simp add: add_def add_duration_unit [OF assms(2)] Let_def)
  have b: "before = sum_list (map duration (filter (in_window lo hi) rows))"
    using total_parsed [OF assms(5,6,3)] assms(7) unfolding assms(8,9) by simp
  have "total [ms, ys] db' = Inr (sum_list (map duration (filter (in_window lo hi) (rows @
         [\<lparr>entry_id = next_id rows, start = Now ev - dur, duration = dur,
           description = Join words '' ''\<rparr>]))))"
    unfolding assms(8,9) by (rule total_parsed [OF assms(5,6)]) (simp add: db')
  then show ?thesis
    by (simp add: b in_window_def)
qed

theorem X6_added_entry_counts_in_its_window_witness:
  "ParseFloat example_env ''2'' = Inr 2 \<and> time_entries empty_store = Some []
   \<and> total [''3'', ''2024''] empty_store = Inr 0
   \<and> (case add example_env [''2h''] empty_store of
         Returned (err, db) \<Rightarrow> err = None \<and> total [''3'', ''2024''] db = Inr 7200000000000
       | Panicked \<Rightarrow> False)"
proof -
  let ?db' = "empty_store\<lparr>time_entries := Some
            [\<lparr>entry_id = 1, start = 1710496800000000000, duration = 7200000000000,
              description = []\<rparr>]\<rparr>"
  have pf: "ParseFloat example_env ''2'' = Inr 2"
    by (simp add: example_env_simps example_ParseFloat_def)
  have u: "CHR ''h'' \<in> {CHR ''h'', CHR ''m'', CHR ''s''}" by simp
  have rows: "time_entries empty_store = Some []" by (simp add: empty_store_def)
  have dur: "add_duration example_env [''2h''] = Returned (Inr 7200000000000)"
    using add_duration_unit [of "CHR ''h''" example_env "''2''" "[]"]
    by (simp add: example_env_simps example_ParseFloat_def Hour_def Minute_def Second_def
          Duration_of_float64_def)
  have a: "add example_env ((''2'' @ [CHR ''h'']) # []) empty_store = Returned (None, ?db')"
    by (simp add: add_def dur example_env_simps next_id_def empty_store_def)
  have t0: "total [''3'', ''2024''] empty_store = Inr 0"
    using total_parsed [OF ParseInt_3 ParseInt_2024 rows] by simp
  have lo: "(1709164800000000000 :: int) = Date 2024 3 0 0 0 0 0"
    by (simp only: window_start_March_2024)
  have hi: "(1711670400000000000 :: int) = AddDate 1709164800000000000 0 1 0"
    by (simp only: window_end_March_2024)
  have d: "(7200000000000 :: int) = Duration_of_float64
          (real_of_int (if CHR ''h'' = CHR ''h'' then Hour
             else if CHR ''h'' = CHR ''m'' then Minute else Second) * 2)"
    by (simp add: Hour_def Minute_def Second_def Duration_of_float64_def)
  have "total [''3'', ''2024''] ?db' = Inr 7200000000000"
    using X6_added_entry_counts_in_its_window [OF pf u rows a ParseInt_3 ParseInt_2024 t0 lo hi d]
    by (simp add: example_env_simps)
  then show ?thesis
    using a pf rows t0 by simp
qed

text \<open>
  X7. Every other command that does not panic (\<open>add\<close>, \<open>total\<close>, \<open>total_money\<close>,
  \<open>init\<close>, an unknown name) ends by returning from \<open>main\<close> after exactly one
  \<open>db.Close()\<close>, which is the last effect of the run.
\<close>

theorem X7_cleanup_on_other_paths:
  "UserHomeDir ev = Some home \<Longrightarrow> 2 \<le> length Args \<Longrightarrow>
   Args ! 1 \<notin> {''set_tax'', ''set_wage''} \<Longrightarrow> ending (main ev Args db) \<noteq> Crashed \<Longrightarrow>
     ending (main ev Args db) = MainReturned
     \<and> hd (trace (main ev Args db)) = Open
     \<and> last (trace (main ev Args db)) = Close
     \<and> length (filter (\<lambda>x. x = Close) (trace (main ev Args db))) = 1"
  by (auto simp: main_def setup_go_def cleanup_def print_usage_def Let_def
           split: outcome.splits option.splits sum.splits prod.splits)

theorem X7_cleanup_on_other_paths_witness:
  "UserHomeDir example_env = Some ''/home/user''
   \<and> trace (main example_env [''time_tracker'', ''total'', ''3'', ''2024''] example_store)
       = [Open, Printf (MsgTotal 7200000000000), Close]
   \<and> last (trace (main example_env [''time_tracker'', ''total'', ''3'', ''2024''] example_store))
       = Close"
proof -
  have t: "total [''3'', ''2024''] example_store = Inr 7200000000000"
    using total_parsed [OF ParseInt_3 ParseInt_2024, of example_store]
    by (simp add: example_store_def window_start_March_2024 window_end_March_2024 in_window_def)
  have m: "main example_env [''time_tracker'', ''total'', ''3'', ''2024''] example_store
          = \<lparr>trace = [Open, Printf (MsgTotal 7200000000000), Close], ending = MainReturned,
             final = example_store\<rparr>"
    by (simp add: main_def setup_go_def example_env_simps cleanup_def t)
  have "last (trace (main example_env [''time_tracker'', ''total'', ''3'', ''2024''] example_store))
       = Close"
    using X7_cleanup_on_other_paths [of example_env "''/home/user''"
            "[''time_tracker'', ''total'', ''3'', ''2024'']" example_store]
    by (simp add: example_env_simps m)
  then show ?thesis by (simp add: example_env_simps m)
qed

end
